theory Spec2Isabelle
  imports Complex_Main "HOL-Library.Multiset"
begin

section \<open>Primitive algorithm library (custom_algorithms.py)\<close>

text \<open>
  Python floats are modelled as ideal reals, Python lists as HOL lists.  A tuple together
  with the component selector \<^verbatim>\<open>item[key_index]\<close> is an item of type \<open>'a\<close> with a key function
  into a linear order; the performance counters \<^verbatim>\<open>comparison_count\<close> and \<^verbatim>\<open>swap_count\<close>
  never influence a result and are left out.
\<close>

datatype py_error = IndexError | KeyError | ValueError

subsection \<open>quick\_sort\<close>

text \<open>The \<^verbatim>\<open>for item in arr\<close> loop of \<^verbatim>\<open>quick_sort\<close>: every item is appended to
  exactly one of \<^verbatim>\<open>left\<close>, \<^verbatim>\<open>middle\<close>, \<^verbatim>\<open>right\<close>.\<close>

fun partition_loop ::
  "('a \<Rightarrow> 'k::linorder) \<Rightarrow> bool \<Rightarrow> 'k \<Rightarrow> 'a list \<Rightarrow> 'a list \<Rightarrow> 'a list \<Rightarrow> 'a list
     \<Rightarrow> 'a list \<times> 'a list \<times> 'a list" where
  "partition_loop key reverse pivot_value [] left middle right = (left, middle, right)"
| "partition_loop key reverse pivot_value (item # rest) left middle right =
     (if (\<not> reverse \<and> key item < pivot_value) \<or> (reverse \<and> key item > pivot_value)
      then partition_loop key reverse pivot_value rest (left @ [item]) middle right
      else if key item = pivot_value
      then partition_loop key reverse pivot_value rest left (middle @ [item]) right
      else partition_loop key reverse pivot_value rest left middle (right @ [item]))"

definition goes_left :: "('a \<Rightarrow> 'k::linorder) \<Rightarrow> bool \<Rightarrow> 'k \<Rightarrow> 'a \<Rightarrow> bool" where
  "goes_left key reverse pivot_value item \<longleftrightarrow>
     (\<not> reverse \<and> key item < pivot_value) \<or> (reverse \<and> key item > pivot_value)"

definition goes_right :: "('a \<Rightarrow> 'k::linorder) \<Rightarrow> bool \<Rightarrow> 'k \<Rightarrow> 'a \<Rightarrow> bool" where
  "goes_right key reverse pivot_value item \<longleftrightarrow>
     \<not> goes_left key reverse pivot_value item \<and> key item \<noteq> pivot_value"

lemma partition_loop_filter:
  "partition_loop key reverse pv arr left middle right =
     (left @ filter (goes_left key reverse pv) arr,
      middle @ filter (\<lambda>item. key item = pv) arr,
      right @ filter (goes_right key reverse pv) arr)"
  by (induction arr arbitrary: left middle right) (auto simp: goes_left_def goes_right_def)

function quick_sort :: "('a \<Rightarrow> 'k::linorder) \<Rightarrow> bool \<Rightarrow> 'a list \<Rightarrow> 'a list" where
  "quick_sort key reverse arr =
     (if length arr \<le> 1 then arr
      else
        let pivot = arr ! (length arr div 2);
            pivot_value = key pivot;
            parts = partition_loop key reverse pivot_value arr [] [] []
        in quick_sort key reverse (fst parts) @ fst (snd parts)
             @ quick_sort key reverse (snd (snd parts)))"
  by pat_completeness auto
termination
proof (relation "measure (\<lambda>(key, reverse, arr). length arr)", goal_cases)
  case 1
  show ?case by simp
next
  case (2 key reverse arr pivot pivot_value parts)
  have "pivot \<in> set arr" using 2 by simp
  moreover have "\<not> goes_left key reverse pivot_value pivot"
    using 2 by (simp add: goes_left_def)
  ultimately have "length (filter (goes_left key reverse pivot_value) arr) < length arr"
    by (meson length_filter_less)
  then show ?case using 2 by (simp add: partition_loop_filter)
next
  case (3 key reverse arr pivot pivot_value parts)
  have "pivot \<in> set arr" using 3 by simp
  moreover have "\<not> goes_right key reverse pivot_value pivot"
    using 3 by (simp add: goes_right_def)
  ultimately have "length (filter (goes_right key reverse pivot_value) arr) < length arr"
    by (meson length_filter_less)
  then show ?case using 3 by (simp add: partition_loop_filter)
qed

text \<open>The order the flag \<open>reverse\<close> asks for.\<close>

definition key_le :: "bool \<Rightarrow> 'k::linorder \<Rightarrow> 'k \<Rightarrow> bool" where
  "key_le reverse a b = (if reverse then b \<le> a else a \<le> b)"

subsection \<open>calculate\_percentiles\<close>

text \<open>The interpolation of the \<^verbatim>\<open>else\<close> branch.  \<^verbatim>\<open>int(position)\<close> truncates towards zero;
  the branch is reached with \<open>0 < p < 100\<close> only, where the position is not negative and
  truncation is the floor.\<close>

definition interpolate :: "real list \<Rightarrow> int \<Rightarrow> real" where
  "interpolate sorted_values p =
     (let n = length sorted_values;
          position = (real_of_int p / 100) * real (n - 1);
          lower_index = nat \<lfloor>position\<rfloor>;
          upper_index = min (lower_index + 1) (n - 1);
          weight = position - real lower_index
      in sorted_values ! lower_index * (1 - weight) + sorted_values ! upper_index * weight)"

text \<open>The loop \<^verbatim>\<open>for p in percentiles\<close> over the non-empty sorted values; the dictionary
  \<^verbatim>\<open>result\<close> is a map.\<close>

fun percentile_loop :: "real list \<Rightarrow> int list \<Rightarrow> (int \<rightharpoonup> real) \<Rightarrow> (int \<rightharpoonup> real)" where
  "percentile_loop sorted_values [] result = result"
| "percentile_loop sorted_values (p # percentiles) result =
     (if p < 0 \<or> p > 100 then percentile_loop sorted_values percentiles result
      else if p = 0
      then percentile_loop sorted_values percentiles (result(p \<mapsto> sorted_values ! 0))
      else if p = 100
      then percentile_loop sorted_values percentiles (result(p \<mapsto> last sorted_values))
      else percentile_loop sorted_values percentiles
             (result(p \<mapsto> interpolate sorted_values p)))"

definition calculate_percentiles :: "real list \<Rightarrow> int list \<Rightarrow> (int \<rightharpoonup> real)" where
  "calculate_percentiles values percentiles =
     (if values = [] then map_of (map (\<lambda>p. (p, 0)) percentiles)
      else
        let sorted_tuples = quick_sort fst False (zip values [0..<length values]);
            sorted_values = map fst sorted_tuples
        in percentile_loop sorted_values percentiles Map.empty)"

text \<open>The specification's percentile, in its own words: minimum for \<open>p = 0\<close>, maximum for
  \<open>p = 100\<close>, otherwise the linear interpolation between the floor- and the ceiling-indexed
  element of the ascending-sorted values at the fractional rank \<open>(p / 100) * (n - 1)\<close>.\<close>

definition spec_percentile :: "real list \<Rightarrow> int \<Rightarrow> real" where
  "spec_percentile values p =
     (if p = 0 then Min (set values)
      else if p = 100 then Max (set values)
      else
        let position = (real_of_int p / 100) * real (length values - 1);
            weight = position - real_of_int \<lfloor>position\<rfloor>
        in sort values ! nat \<lfloor>position\<rfloor> * (1 - weight)
           + sort values ! nat \<lceil>position\<rceil> * weight)"

subsection \<open>detect\_outliers\_iqr\<close>

text \<open>A dictionary lookup \<^verbatim>\<open>d[k]\<close> raises \<^verbatim>\<open>KeyError\<close> on a missing key.\<close>

definition dict_get :: "('k \<rightharpoonup> 'v) \<Rightarrow> 'k \<Rightarrow> py_error + 'v" where
  "dict_get d k = (case d k of None \<Rightarrow> Inl KeyError | Some v \<Rightarrow> Inr v)"

text \<open>\<^verbatim>\<open>enumerate(xs)\<close>: the items paired with their positions.\<close>

definition enumerate_list :: "'a list \<Rightarrow> (nat \<times> 'a) list" where
  "enumerate_list xs = zip [0..<length xs] xs"

text \<open>The loop collecting the indices of the values outside the bounds.\<close>

fun outlier_loop :: "real \<Rightarrow> real \<Rightarrow> (nat \<times> real) list \<Rightarrow> nat list \<Rightarrow> nat list" where
  "outlier_loop lower_bound upper_bound [] outlier_indices = outlier_indices"
| "outlier_loop lower_bound upper_bound ((i, v) # rest) outlier_indices =
     (if v < lower_bound \<or> v > upper_bound
      then outlier_loop lower_bound upper_bound rest (outlier_indices @ [i])
      else outlier_loop lower_bound upper_bound rest outlier_indices)"

text \<open>The statistics dictionary has string keys; its integer entry \<^verbatim>\<open>outlier_count\<close> is stored
  as a real like the others.\<close>

definition detect_outliers_iqr ::
  "real list \<Rightarrow> real \<Rightarrow> py_error + (nat list \<times> (string \<rightharpoonup> real))" where
  "detect_outliers_iqr values multiplier =
     (if length values < 4 then Inr ([], Map.empty)
      else
        let percentiles = calculate_percentiles values [25, 75] in
        case dict_get percentiles 25 of Inl e \<Rightarrow> Inl e | Inr q1 \<Rightarrow>
        case dict_get percentiles 75 of Inl e \<Rightarrow> Inl e | Inr q3 \<Rightarrow>
        let iqr = q3 - q1;
            lower_bound = q1 - multiplier * iqr;
            upper_bound = q3 + multiplier * iqr;
            outlier_indices = outlier_loop lower_bound upper_bound (enumerate_list values) []
        in Inr (outlier_indices,
                [''q1'' \<mapsto> q1, ''q3'' \<mapsto> q3, ''iqr'' \<mapsto> iqr,
                 ''lower_bound'' \<mapsto> lower_bound, ''upper_bound'' \<mapsto> upper_bound,
                 ''outlier_count'' \<mapsto> real (length outlier_indices)]))"

subsection \<open>calculate\_distance\<close>

text \<open>\<^verbatim>\<open>math.radians\<close>, and the two library calls that raise \<^verbatim>\<open>ValueError\<close> outside their
  domain: \<^verbatim>\<open>math.sqrt\<close> on a negative number and \<^verbatim>\<open>math.asin\<close> outside \<open>[-1, 1]\<close>.\<close>

definition radians :: "real \<Rightarrow> real" where
  "radians deg = deg * pi / 180"

definition math_sqrt :: "real \<Rightarrow> py_error + real" where
  "math_sqrt x = (if x < 0 then Inl ValueError else Inr (sqrt x))"

definition math_asin :: "real \<Rightarrow> py_error + real" where
  "math_asin x = (if x < - 1 \<or> 1 < x then Inl ValueError else Inr (arcsin x))"

definition calculate_distance :: "real \<Rightarrow> real \<Rightarrow> real \<Rightarrow> real \<Rightarrow> py_error + real" where
  "calculate_distance lat1 lon1 lat2 lon2 =
     (let lat1_rad = radians lat1;
          lon1_rad = radians lon1;
          lat2_rad = radians lat2;
          lon2_rad = radians lon2;
          dlat = lat2_rad - lat1_rad;
          dlon = lon2_rad - lon1_rad;
          a = (sin (dlat / 2))\<^sup>2 + cos lat1_rad * cos lat2_rad * (sin (dlon / 2))\<^sup>2
      in case math_sqrt a of Inl e \<Rightarrow> Inl e | Inr sq \<Rightarrow>
         case math_asin sq of Inl e \<Rightarrow> Inl e | Inr angle \<Rightarrow>
         let c = 2 * angle;
             earth_radius_km = 6371
         in Inr (earth_radius_km * c))"

text \<open>The quantity \<^verbatim>\<open>a\<close> of the formula, as a function of the four angles in radians; it
  serves the proofs only.\<close>

definition haversine_a :: "real \<Rightarrow> real \<Rightarrow> real \<Rightarrow> real \<Rightarrow> real" where
  "haversine_a p1 l1 p2 l2 = (sin ((p2 - p1) / 2))\<^sup>2 + cos p1 * cos p2 * (sin ((l2 - l1) / 2))\<^sup>2"

subsection \<open>find\_top\_k and its heap helpers\<close>

text \<open>The heap is a Python list mutated in place; the model passes it through.  A swap
  \<^verbatim>\<open>heap[i], heap[j] = heap[j], heap[i]\<close> is a double list update.  \<^verbatim>\<open>_heapify_up\<close> reads
  \<^verbatim>\<open>heap[index]\<close> whenever \<open>index > 0\<close>, which raises \<^verbatim>\<open>IndexError\<close> past the end of the list;
  every read of \<^verbatim>\<open>_heapify_down\<close> is guarded by a comparison with \<^verbatim>\<open>len(heap)\<close>.\<close>

definition swap :: "'a list \<Rightarrow> nat \<Rightarrow> nat \<Rightarrow> 'a list" where
  "swap heap i j = heap[i := heap ! j, j := heap ! i]"

function heapify_up :: "('a \<Rightarrow> 'k::linorder) \<Rightarrow> 'a list \<Rightarrow> nat \<Rightarrow> py_error + 'a list" where
  "heapify_up key heap index =
     (let parent_index = (index - 1) div 2 in
      if index > 0 then
        if index < length heap then
          if key (heap ! index) < key (heap ! parent_index)
          then heapify_up key (swap heap index parent_index) parent_index
          else Inr heap
        else Inl IndexError
      else Inr heap)"
  by pat_completeness auto
termination
  by (relation "measure (\<lambda>(key, heap, index). index)") auto

function heapify_down :: "('a \<Rightarrow> 'k::linorder) \<Rightarrow> 'a list \<Rightarrow> nat \<Rightarrow> 'a list" where
  "heapify_down key heap index =
     (let left_child = 2 * index + 1;
          right_child = 2 * index + 2;
          smallest = index;
          smallest = (if left_child < length heap
                         \<and> key (heap ! left_child) < key (heap ! smallest)
                      then left_child else smallest);
          smallest = (if right_child < length heap
                         \<and> key (heap ! right_child) < key (heap ! smallest)
                      then right_child else smallest)
      in if smallest \<noteq> index
         then heapify_down key (swap heap index smallest) smallest
         else heap)"
  by pat_completeness auto
termination
  by (relation "measure (\<lambda>(key, heap, index). length heap - index)")
    (auto simp: swap_def split: if_splits)

text \<open>The loop \<^verbatim>\<open>for item in data\<close> of \<^verbatim>\<open>find_top_k\<close>.  \<open>k\<close> is a Python integer;
  \<^verbatim>\<open>heap[0]\<close> on the empty heap raises \<^verbatim>\<open>IndexError\<close>.\<close>

fun top_k_loop :: "('a \<Rightarrow> 'k::linorder) \<Rightarrow> int \<Rightarrow> 'a list \<Rightarrow> 'a list \<Rightarrow> py_error + 'a list" where
  "top_k_loop key k [] heap = Inr heap"
| "top_k_loop key k (item # rest) heap =
     (if int (length heap) < k then
        (case heapify_up key (heap @ [item]) (length (heap @ [item]) - 1) of
           Inl e \<Rightarrow> Inl e
         | Inr heap' \<Rightarrow> top_k_loop key k rest heap')
      else if heap = [] then Inl IndexError
      else if key item > key (heap ! 0)
      then top_k_loop key k rest (heapify_down key (heap[0 := item]) 0)
      else top_k_loop key k rest heap)"

definition find_top_k :: "('a \<Rightarrow> 'k::linorder) \<Rightarrow> int \<Rightarrow> 'a list \<Rightarrow> py_error + 'a list" where
  "find_top_k key k data =
     (if k \<ge> int (length data) then Inr (quick_sort key True data)
      else case top_k_loop key k data [] of
             Inl e \<Rightarrow> Inl e
           | Inr heap \<Rightarrow> Inr (quick_sort key True heap))"

declare heapify_up.simps [simp del] heapify_down.simps [simp del]

section \<open>Cleaning pipeline (data\_cleaner.py)\<close>

text \<open>
  A record is a Python dictionary from field names to the strings read from the CSV file.
  The stages mutate the dictionaries in place and pass lists of references around, so the
  record objects live in a store indexed by address and a record list is a list of
  addresses: a record dropped from the working list is still in the store, with whatever was
  written on it.  Console output is not modelled.
\<close>

type_synonym pydict = "string \<rightharpoonup> string"
type_synonym addr = nat

text \<open>How Python's builtins read and print the strings is not part of the repository: the
  conversions \<^verbatim>\<open>float(s)\<close>, \<^verbatim>\<open>int(s)\<close> and \<^verbatim>\<open>datetime.strptime(s, '%Y-%m-%d %H:%M:%S')\<close>
  (\<open>None\<close> where Python raises \<^verbatim>\<open>ValueError\<close>), the formatting \<^verbatim>\<open>f"{x:.nf}"\<close> and
  \<^verbatim>\<open>str\<close> are parameters of the model.  Of a parsed datetime the code uses its position on
  the time line (in seconds), its hour, its month and its day name.\<close>

record pydatetime =
  dt_seconds :: int
  dt_hour :: nat
  dt_month :: nat
  dt_weekday :: string

record builtins =
  to_float :: "string \<Rightarrow> real option"
  to_int :: "string \<Rightarrow> int option"
  strptime :: "string \<Rightarrow> pydatetime option"
  format_fixed :: "nat \<Rightarrow> real \<Rightarrow> string"
  str_of_float :: "real \<Rightarrow> string"
  str_of_int :: "int \<Rightarrow> string"

record cleaning_stats =
  total_records :: int
  valid_records :: int
  invalid_records :: int
  duplicates_removed :: int
  missing_values_fixed :: int
  outliers_detected :: int
  coordinate_errors :: int
  datetime_errors :: int
  duration_errors :: int

record cleaner =
  store :: "addr \<Rightarrow> pydict"
  counters :: cleaning_stats

text \<open>\<^verbatim>\<open>record[k] = v\<close> on the record at an address, and \<^verbatim>\<open>d.get(k, default)\<close>.\<close>

definition set_field :: "addr \<Rightarrow> string \<Rightarrow> string \<Rightarrow> (addr \<Rightarrow> pydict) \<Rightarrow> (addr \<Rightarrow> pydict)" where
  "set_field a k v s = s(a := (s a)(k \<mapsto> v))"

definition get_default :: "pydict \<Rightarrow> string \<Rightarrow> string \<Rightarrow> string" where
  "get_default d k v = (case d k of None \<Rightarrow> v | Some x \<Rightarrow> x)"

text \<open>\<^verbatim>\<open>float(record.get(k, default))\<close> and \<^verbatim>\<open>int(record.get(k, default))\<close> with a numeric
  default: a missing key gives the default, a present one is parsed.\<close>

definition get_float :: "builtins \<Rightarrow> pydict \<Rightarrow> string \<Rightarrow> real \<Rightarrow> real option" where
  "get_float env d k v = (case d k of None \<Rightarrow> Some v | Some s \<Rightarrow> to_float env s)"

definition get_int :: "builtins \<Rightarrow> pydict \<Rightarrow> string \<Rightarrow> int \<Rightarrow> int option" where
  "get_int env d k v = (case d k of None \<Rightarrow> Some v | Some s \<Rightarrow> to_int env s)"

fun str_join :: "string \<Rightarrow> string list \<Rightarrow> string" where
  "str_join sep [] = []"
| "str_join sep [x] = x"
| "str_join sep (x # y # ys) = x @ sep @ str_join sep (y # ys)"

subsection \<open>\_remove\_duplicates\<close>

definition unique_key :: "pydict \<Rightarrow> string" where
  "unique_key record =
     str_join ''|''
       [get_default record ''pickup_datetime'' '''',
        get_default record ''dropoff_datetime'' '''',
        get_default record ''pickup_longitude'' '''',
        get_default record ''pickup_latitude'' '''',
        get_default record ''trip_duration'' '''']"

fun remove_duplicates_loop ::
  "cleaner \<Rightarrow> addr list \<Rightarrow> string set \<Rightarrow> addr list \<Rightarrow> cleaner \<times> addr list" where
  "remove_duplicates_loop st [] seen_records unique_data = (st, unique_data)"
| "remove_duplicates_loop st (record # rest) seen_records unique_data =
     (if unique_key (store st record) \<notin> seen_records
      then remove_duplicates_loop st rest
             (insert (unique_key (store st record)) seen_records) (unique_data @ [record])
      else remove_duplicates_loop
             (counters_update (duplicates_removed_update (\<lambda>n. n + 1)) st)
             rest seen_records unique_data)"

definition remove_duplicates :: "cleaner \<Rightarrow> addr list \<Rightarrow> cleaner \<times> addr list" where
  "remove_duplicates st data = remove_duplicates_loop st data {} []"

subsection \<open>\_fix\_missing\_values\<close>

text \<open>\<^verbatim>\<open>not record.get(k) or record[k] == ''\<close>: the field is absent or the empty string.\<close>

definition is_missing :: "pydict \<Rightarrow> string \<Rightarrow> bool" where
  "is_missing record k = (case record k of None \<Rightarrow> True | Some s \<Rightarrow> s = [])"

text \<open>The body of the loop for one record: the record after the three defaults, and the
  local flag \<^verbatim>\<open>fixed\<close>.\<close>

definition fix_record :: "pydict \<Rightarrow> pydict \<times> bool" where
  "fix_record record =
     (let fixed = False;
          (record, fixed) =
             (if is_missing record ''passenger_count''
              then (record(''passenger_count'' \<mapsto> ''1''), True) else (record, fixed));
          (record, fixed) =
             (if is_missing record ''store_and_fwd_flag''
              then (record(''store_and_fwd_flag'' \<mapsto> ''N''), True) else (record, fixed));
          (record, fixed) =
             (if is_missing record ''vendor_id''
              then (record(''vendor_id'' \<mapsto> ''1''), True) else (record, fixed))
      in (record, fixed))"

fun fix_missing_values_loop :: "cleaner \<Rightarrow> addr list \<Rightarrow> cleaner" where
  "fix_missing_values_loop st [] = st"
| "fix_missing_values_loop st (record # rest) =
     (let (fixed_record, fixed) = fix_record (store st record);
          st = store_update (\<lambda>s. s(record := fixed_record)) st;
          st = (if fixed then counters_update (missing_values_fixed_update (\<lambda>n. n + 1)) st
                else st)
      in fix_missing_values_loop st rest)"

definition fix_missing_values :: "cleaner \<Rightarrow> addr list \<Rightarrow> cleaner \<times> addr list" where
  "fix_missing_values st data = (fix_missing_values_loop st data, data)"

subsection \<open>\_validate\_coordinates\<close>

definition min_lat :: real where "min_lat = 40.4774"
definition max_lat :: real where "max_lat = 40.9176"
definition min_lon :: real where "min_lon = - 74.2591"
definition max_lon :: real where "max_lon = - 73.7004"

text \<open>The \<^verbatim>\<open>try\<close> block for one record: \<open>None\<close> when a conversion raises, otherwise whether
  both points lie inside the bounds.\<close>

definition coordinates_valid :: "builtins \<Rightarrow> pydict \<Rightarrow> bool option" where
  "coordinates_valid env record =
     (case get_float env record ''pickup_longitude'' 0 of None \<Rightarrow> None | Some pickup_lon \<Rightarrow>
      case get_float env record ''pickup_latitude'' 0 of None \<Rightarrow> None | Some pickup_lat \<Rightarrow>
      case get_float env record ''dropoff_longitude'' 0 of None \<Rightarrow> None | Some dropoff_lon \<Rightarrow>
      case get_float env record ''dropoff_latitude'' 0 of None \<Rightarrow> None | Some dropoff_lat \<Rightarrow>
      let valid_pickup = (min_lat \<le> pickup_lat \<and> pickup_lat \<le> max_lat
                          \<and> min_lon \<le> pickup_lon \<and> pickup_lon \<le> max_lon);
          valid_dropoff = (min_lat \<le> dropoff_lat \<and> dropoff_lat \<le> max_lat
                           \<and> min_lon \<le> dropoff_lon \<and> dropoff_lon \<le> max_lon)
      in Some (valid_pickup \<and> valid_dropoff))"

fun validate_coordinates_loop ::
  "builtins \<Rightarrow> cleaner \<Rightarrow> addr list \<Rightarrow> addr list \<Rightarrow> cleaner \<times> addr list" where
  "validate_coordinates_loop env st [] valid_data = (st, valid_data)"
| "validate_coordinates_loop env st (record # rest) valid_data =
     (if coordinates_valid env (store st record) = Some True
      then validate_coordinates_loop env st rest (valid_data @ [record])
      else validate_coordinates_loop env
             (store_update (set_field record ''validity_flag'' ''INVALID_COORDINATES'')
               (counters_update (coordinate_errors_update (\<lambda>n. n + 1)) st))
             rest valid_data)"

definition validate_coordinates :: "builtins \<Rightarrow> cleaner \<Rightarrow> addr list \<Rightarrow> cleaner \<times> addr list" where
  "validate_coordinates env st data = validate_coordinates_loop env st data []"

subsection \<open>\_validate\_datetime\<close>

text \<open>The \<^verbatim>\<open>try\<close> block for one record.  \<^verbatim>\<open>record['pickup_datetime']\<close> raises \<^verbatim>\<open>KeyError\<close> on
  a missing key, which the \<^verbatim>\<open>except (ValueError, TypeError)\<close> clause does not catch: the
  outer result \<open>Inl\<close>.  The inner result is \<open>None\<close> for a rejected record (a string that does
  not parse, or a drop-off not after the pick-up) and the elapsed seconds otherwise.\<close>

definition datetime_check :: "builtins \<Rightarrow> pydict \<Rightarrow> py_error + int option" where
  "datetime_check env record =
     (case record ''pickup_datetime'' of None \<Rightarrow> Inl KeyError | Some pickup \<Rightarrow>
      case strptime env pickup of None \<Rightarrow> Inr None | Some pickup_dt \<Rightarrow>
      case record ''dropoff_datetime'' of None \<Rightarrow> Inl KeyError | Some dropoff \<Rightarrow>
      case strptime env dropoff of None \<Rightarrow> Inr None | Some dropoff_dt \<Rightarrow>
      if dt_seconds dropoff_dt > dt_seconds pickup_dt
      then Inr (Some (dt_seconds dropoff_dt - dt_seconds pickup_dt))
      else Inr None)"

fun validate_datetime_loop ::
  "builtins \<Rightarrow> cleaner \<Rightarrow> addr list \<Rightarrow> addr list \<Rightarrow> py_error + cleaner \<times> addr list" where
  "validate_datetime_loop env st [] valid_data = Inr (st, valid_data)"
| "validate_datetime_loop env st (record # rest) valid_data =
     (case datetime_check env (store st record) of
        Inl e \<Rightarrow> Inl e
      | Inr (Some actual_duration) \<Rightarrow>
          validate_datetime_loop env
            (store_update (set_field record ''calculated_duration''
                             (str_of_int env actual_duration)) st)
            rest (valid_data @ [record])
      | Inr None \<Rightarrow>
          validate_datetime_loop env
            (store_update (set_field record ''validity_flag'' ''INVALID_DATETIME'')
              (counters_update (datetime_errors_update (\<lambda>n. n + 1)) st))
            rest valid_data)"

definition validate_datetime ::
  "builtins \<Rightarrow> cleaner \<Rightarrow> addr list \<Rightarrow> py_error + cleaner \<times> addr list" where
  "validate_datetime env st data = validate_datetime_loop env st data []"

subsection \<open>\_validate\_trip\_duration\<close>

definition min_duration :: int where "min_duration = 60"
definition max_duration :: int where "max_duration = 3600"
definition max_passenger :: int where "max_passenger = 8"

definition duration_valid :: "builtins \<Rightarrow> pydict \<Rightarrow> bool option" where
  "duration_valid env record =
     (case get_int env record ''trip_duration'' 0 of None \<Rightarrow> None | Some trip_duration \<Rightarrow>
      case get_int env record ''passenger_count'' 1 of None \<Rightarrow> None | Some passenger_count \<Rightarrow>
      let valid_duration = (min_duration \<le> trip_duration \<and> trip_duration \<le> max_duration);
          valid_passengers = (1 \<le> passenger_count \<and> passenger_count \<le> max_passenger)
      in Some (valid_duration \<and> valid_passengers))"

fun validate_trip_duration_loop ::
  "builtins \<Rightarrow> cleaner \<Rightarrow> addr list \<Rightarrow> addr list \<Rightarrow> cleaner \<times> addr list" where
  "validate_trip_duration_loop env st [] valid_data = (st, valid_data)"
| "validate_trip_duration_loop env st (record # rest) valid_data =
     (if duration_valid env (store st record) = Some True
      then validate_trip_duration_loop env st rest (valid_data @ [record])
      else validate_trip_duration_loop env
             (store_update (set_field record ''validity_flag'' ''INVALID_DURATION_OR_PASSENGERS'')
               (counters_update (duration_errors_update (\<lambda>n. n + 1)) st))
             rest valid_data)"

definition validate_trip_duration ::
  "builtins \<Rightarrow> cleaner \<Rightarrow> addr list \<Rightarrow> cleaner \<times> addr list" where
  "validate_trip_duration env st data = validate_trip_duration_loop env st data []"

subsection \<open>\_detect\_outliers\<close>

text \<open>The first loop appends one duration per record: the parsed \<^verbatim>\<open>trip_duration\<close>, or \<open>0\<close>
  when the conversion raises.\<close>

definition durations_of :: "builtins \<Rightarrow> (addr \<Rightarrow> pydict) \<Rightarrow> addr list \<Rightarrow> real list" where
  "durations_of env s data =
     map (\<lambda>record. case get_float env (s record) ''trip_duration'' 0 of
                      None \<Rightarrow> 0 | Some duration \<Rightarrow> duration) data"

text \<open>The last loop writes the outlier flag on every record of the working list.\<close>

fun mark_outliers_loop :: "cleaner \<Rightarrow> (nat \<times> addr) list \<Rightarrow> nat set \<Rightarrow> cleaner" where
  "mark_outliers_loop st [] outlier_indices = st"
| "mark_outliers_loop st ((i, record) # rest) outlier_indices =
     (if i \<in> outlier_indices
      then mark_outliers_loop
             (counters_update (outliers_detected_update (\<lambda>n. n + 1))
               (store_update (set_field record ''outlier_flag'' ''DURATION_OUTLIER'') st))
             rest outlier_indices
      else mark_outliers_loop
             (store_update (set_field record ''outlier_flag'' ''NORMAL'') st)
             rest outlier_indices)"

text \<open>The indices of the outliers.  Above 100,000 durations the bounds come from
  \<^verbatim>\<open>random.sample(durations, sample_size)\<close>; the code passes no seed and no random source of its
  own, it draws from the process-wide generator.  The model takes the draw as the parameter
  \<open>sample\<close>: any function from the population and the sample size to the list drawn.\<close>

definition outlier_index_set ::
  "(real list \<Rightarrow> nat \<Rightarrow> real list) \<Rightarrow> real list \<Rightarrow> py_error + nat set" where
  "outlier_index_set sample durations =
     (if length durations > 100000 then
        let sample_size = min 50000 (length durations);
            sample_durations = sample durations sample_size
        in case detect_outliers_iqr sample_durations 2 of
             Inl e \<Rightarrow> Inl e
           | Inr (unused, outlier_stats) \<Rightarrow>
        case dict_get outlier_stats ''q1'' of Inl e \<Rightarrow> Inl e | Inr q1 \<Rightarrow>
        case dict_get outlier_stats ''q3'' of Inl e \<Rightarrow> Inl e | Inr q3 \<Rightarrow>
        let iqr = q3 - q1;
            lower_bound = q1 - 2 * iqr;
            upper_bound = q3 + 2 * iqr
        in Inr (set (outlier_loop lower_bound upper_bound (enumerate_list durations) []))
      else
        case detect_outliers_iqr durations 2 of
          Inl e \<Rightarrow> Inl e
        | Inr (outlier_indices, outlier_stats) \<Rightarrow> Inr (set outlier_indices))"

definition detect_outliers ::
  "builtins \<Rightarrow> (real list \<Rightarrow> nat \<Rightarrow> real list) \<Rightarrow> cleaner \<Rightarrow> addr list
     \<Rightarrow> py_error + cleaner \<times> addr list" where
  "detect_outliers env sample st data =
     (case outlier_index_set sample (durations_of env (store st) data) of
        Inl e \<Rightarrow> Inl e
      | Inr outlier_indices \<Rightarrow>
          Inr (mark_outliers_loop st (enumerate_list data) outlier_indices, data))"

subsection \<open>clean\_dataset\<close>

text \<open>\<^verbatim>\<open>_write_cleaned_data\<close> writes the file (not modelled) and, when the list is not empty,
  sets two counters.\<close>

definition write_cleaned_data :: "cleaner \<Rightarrow> addr list \<Rightarrow> cleaner" where
  "write_cleaned_data st data =
     (if data = [] then st
      else counters_update
             (\<lambda>c. c\<lparr>valid_records := int (length data),
                     invalid_records := total_records c - int (length data)\<rparr>) st)"

text \<open>The pipeline, started on the records \<^verbatim>\<open>_read_csv_data\<close> has put into the store.  The
  result carries, besides the final state, the cleaned list that is written to the file.\<close>

definition clean_dataset ::
  "builtins \<Rightarrow> (real list \<Rightarrow> nat \<Rightarrow> real list) \<Rightarrow> cleaner \<Rightarrow> addr list
     \<Rightarrow> py_error + cleaner \<times> addr list" where
  "clean_dataset env sample st raw_data =
     (let (st, cleaned_data) = remove_duplicates st raw_data;
          (st, cleaned_data) = fix_missing_values st cleaned_data;
          (st, cleaned_data) = validate_coordinates env st cleaned_data
      in case validate_datetime env st cleaned_data of
           Inl e \<Rightarrow> Inl e
         | Inr (st, cleaned_data) \<Rightarrow>
      let (st, cleaned_data) = validate_trip_duration env st cleaned_data
      in case detect_outliers env sample st cleaned_data of
           Inl e \<Rightarrow> Inl e
         | Inr (st, cleaned_data) \<Rightarrow> Inr (write_cleaned_data st cleaned_data, cleaned_data))"

section \<open>Feature engineering pipeline (feature\_engineering.py)\<close>

record feature_stats =
  records_processed :: int
  features_created :: int
  distance_calculations :: int
  time_features :: int
  efficiency_metrics :: int

record engineer =
  fe_store :: "addr \<Rightarrow> pydict"
  fe_counters :: feature_stats

text \<open>Every stage is a loop \<^verbatim>\<open>for record in data\<close> whose body rewrites the record in place
  and may advance counters, and every stage returns the list it was given.  The loop is
  written once; a body maps the record to the rewritten record and the counter update.\<close>

fun for_each_record ::
  "(pydict \<Rightarrow> pydict \<times> (feature_stats \<Rightarrow> feature_stats)) \<Rightarrow> engineer \<Rightarrow> addr list \<Rightarrow> engineer" where
  "for_each_record body st [] = st"
| "for_each_record body st (record # rest) =
     (let (new_record, bump) = body (fe_store st record)
      in for_each_record body
           (fe_counters_update bump (fe_store_update (\<lambda>s. s(record := new_record)) st)) rest)"

text \<open>\<^verbatim>\<open>float(record[k])\<close> inside a \<^verbatim>\<open>try\<close> whose handler catches \<^verbatim>\<open>KeyError\<close> as well as
  \<^verbatim>\<open>ValueError\<close>: \<open>None\<close> for either.\<close>

definition item_float :: "builtins \<Rightarrow> pydict \<Rightarrow> string \<Rightarrow> real option" where
  "item_float env record k = (case record k of None \<Rightarrow> None | Some s \<Rightarrow> to_float env s)"

subsection \<open>\_calculate\_trip\_distance\<close>

definition trip_distance_record ::
  "builtins \<Rightarrow> pydict \<Rightarrow> pydict \<times> (feature_stats \<Rightarrow> feature_stats)" where
  "trip_distance_record env record =
     (case item_float env record ''pickup_latitude'' of
        None \<Rightarrow> (record(''trip_distance_km'' \<mapsto> ''0.000''), id) | Some pickup_lat \<Rightarrow>
      case item_float env record ''pickup_longitude'' of
        None \<Rightarrow> (record(''trip_distance_km'' \<mapsto> ''0.000''), id) | Some pickup_lon \<Rightarrow>
      case item_float env record ''dropoff_latitude'' of
        None \<Rightarrow> (record(''trip_distance_km'' \<mapsto> ''0.000''), id) | Some dropoff_lat \<Rightarrow>
      case item_float env record ''dropoff_longitude'' of
        None \<Rightarrow> (record(''trip_distance_km'' \<mapsto> ''0.000''), id) | Some dropoff_lon \<Rightarrow>
      case calculate_distance pickup_lat pickup_lon dropoff_lat dropoff_lon of
        Inl e \<Rightarrow> (record(''trip_distance_km'' \<mapsto> ''0.000''), id)
      | Inr distance_km \<Rightarrow>
          (record(''trip_distance_km'' \<mapsto> format_fixed env 3 distance_km),
           distance_calculations_update (\<lambda>n. n + 1) \<circ> features_created_update (\<lambda>n. n + 1)))"

definition calculate_trip_distance :: "builtins \<Rightarrow> engineer \<Rightarrow> addr list \<Rightarrow> engineer \<times> addr list" where
  "calculate_trip_distance env st data = (for_each_record (trip_distance_record env) st data, data)"

subsection \<open>\_calculate\_trip\_speed\<close>

definition trip_speed_record ::
  "builtins \<Rightarrow> pydict \<Rightarrow> pydict \<times> (feature_stats \<Rightarrow> feature_stats)" where
  "trip_speed_record env record =
     (case get_float env record ''trip_distance_km'' 0 of
        None \<Rightarrow> (record(''trip_speed_kmh'' \<mapsto> ''0.00''), id) | Some distance_km \<Rightarrow>
      case get_float env record ''trip_duration'' 0 of
        None \<Rightarrow> (record(''trip_speed_kmh'' \<mapsto> ''0.00''), id) | Some duration_seconds \<Rightarrow>
      (if duration_seconds > 0
       then let duration_hours = duration_seconds / 3600;
                speed_kmh = distance_km / duration_hours
            in record(''trip_speed_kmh'' \<mapsto> format_fixed env 2 speed_kmh)
       else record(''trip_speed_kmh'' \<mapsto> ''0.00''),
       features_created_update (\<lambda>n. n + 1)))"

definition calculate_trip_speed :: "builtins \<Rightarrow> engineer \<Rightarrow> addr list \<Rightarrow> engineer \<times> addr list" where
  "calculate_trip_speed env st data = (for_each_record (trip_speed_record env) st data, data)"

subsection \<open>\_extract\_temporal\_features\<close>

definition time_of_day :: "nat \<Rightarrow> string" where
  "time_of_day hour =
     (if 5 \<le> hour \<and> hour < 12 then ''Morning''
      else if 12 \<le> hour \<and> hour < 17 then ''Afternoon''
      else if 17 \<le> hour \<and> hour < 21 then ''Evening''
      else ''Night'')"

definition py_bool :: "bool \<Rightarrow> string" where
  "py_bool b = (if b then ''True'' else ''False'')"

definition temporal_record ::
  "builtins \<Rightarrow> pydict \<Rightarrow> pydict \<times> (feature_stats \<Rightarrow> feature_stats)" where
  "temporal_record env record =
     (case (case record ''pickup_datetime'' of None \<Rightarrow> None | Some s \<Rightarrow> strptime env s) of
        None \<Rightarrow>
          (record(''pickup_hour'' \<mapsto> ''0'', ''time_of_day'' \<mapsto> ''Unknown'',
                  ''day_of_week'' \<mapsto> ''Unknown'', ''is_weekend'' \<mapsto> ''False'',
                  ''pickup_month'' \<mapsto> ''1'', ''is_rush_hour'' \<mapsto> ''False''), id)
      | Some pickup_dt \<Rightarrow>
          let hour = dt_hour pickup_dt;
              day_of_week = dt_weekday pickup_dt;
              is_weekend = (day_of_week \<in> {''Saturday'', ''Sunday''});
              is_rush_hour = (((7 \<le> hour \<and> hour \<le> 9) \<or> (17 \<le> hour \<and> hour \<le> 19))
                              \<and> \<not> is_weekend)
          in (record(''pickup_hour'' \<mapsto> str_of_int env (int hour),
                     ''time_of_day'' \<mapsto> time_of_day hour,
                     ''day_of_week'' \<mapsto> day_of_week,
                     ''is_weekend'' \<mapsto> py_bool is_weekend,
                     ''pickup_month'' \<mapsto> str_of_int env (int (dt_month pickup_dt)),
                     ''is_rush_hour'' \<mapsto> py_bool is_rush_hour),
              time_features_update (\<lambda>n. n + 6) \<circ> features_created_update (\<lambda>n. n + 6)))"

definition extract_temporal_features ::
  "builtins \<Rightarrow> engineer \<Rightarrow> addr list \<Rightarrow> engineer \<times> addr list" where
  "extract_temporal_features env st data = (for_each_record (temporal_record env) st data, data)"

subsection \<open>\_calculate\_efficiency\_metrics\<close>

definition efficiency_record ::
  "builtins \<Rightarrow> pydict \<Rightarrow> pydict \<times> (feature_stats \<Rightarrow> feature_stats)" where
  "efficiency_record env record =
     (let failed = (record(''distance_per_minute'' \<mapsto> ''0.0000'',
                           ''estimated_idle_time'' \<mapsto> ''0'',
                           ''efficiency_score'' \<mapsto> ''0.0'',
                           ''trip_complexity'' \<mapsto> ''1.00''), id)
      in
      case get_float env record ''trip_distance_km'' 0 of None \<Rightarrow> failed | Some distance_km \<Rightarrow>
      case get_float env record ''trip_duration'' 0 of None \<Rightarrow> failed | Some duration_seconds \<Rightarrow>
      case get_float env record ''trip_speed_kmh'' 0 of None \<Rightarrow> failed | Some speed_kmh \<Rightarrow>
      let duration_minutes = duration_seconds / 60;
          record = (if duration_minutes > 0
                    then record(''distance_per_minute'' \<mapsto>
                                  format_fixed env 4 (distance_km / duration_minutes))
                    else record(''distance_per_minute'' \<mapsto> ''0.0000''));
          record = (if speed_kmh > 0
                    then let theoretical_time = (distance_km / speed_kmh) * 3600;
                             idle_time = max 0 (duration_seconds - theoretical_time)
                         in record(''estimated_idle_time'' \<mapsto> format_fixed env 0 idle_time)
                    else record(''estimated_idle_time'' \<mapsto> str_of_float env duration_seconds));
          max_reasonable_speed = 40;
          record = (if speed_kmh > 0
                    then let efficiency = min 100 ((speed_kmh / max_reasonable_speed) * 100)
                         in record(''efficiency_score'' \<mapsto> format_fixed env 1 efficiency)
                    else record(''efficiency_score'' \<mapsto> ''0.0''));
          record = (if distance_km > 0 \<and> duration_seconds > 0
                    then let expected_duration = (distance_km / 20) * 3600;
                             complexity_ratio = duration_seconds / expected_duration
                         in record(''trip_complexity'' \<mapsto> format_fixed env 2 complexity_ratio)
                    else record(''trip_complexity'' \<mapsto> ''1.00''))
      in (record,
          efficiency_metrics_update (\<lambda>n. n + 4) \<circ> features_created_update (\<lambda>n. n + 4)))"

definition calculate_efficiency_metrics ::
  "builtins \<Rightarrow> engineer \<Rightarrow> addr list \<Rightarrow> engineer \<times> addr list" where
  "calculate_efficiency_metrics env st data = (for_each_record (efficiency_record env) st data, data)"

subsection \<open>\_classify\_trip\_zones\<close>

definition borough_centers :: "(string \<times> real \<times> real) list" where
  "borough_centers =
     [(''Manhattan'', 40.7831, - 73.9712),
      (''Brooklyn'', 40.6782, - 73.9442),
      (''Queens'', 40.7282, - 73.7949),
      (''Bronx'', 40.8448, - 73.8648),
      (''Staten Island'', 40.5795, - 74.1502)]"

text \<open>The loop of \<^verbatim>\<open>_find_closest_borough\<close>; \<^verbatim>\<open>min_distance\<close> starts at infinity, written
  \<open>None\<close>.\<close>

fun closest_borough_loop ::
  "real \<Rightarrow> real \<Rightarrow> (string \<times> real \<times> real) list \<Rightarrow> real option \<Rightarrow> string \<Rightarrow> py_error + string" where
  "closest_borough_loop lat lon [] min_distance closest_borough = Inr closest_borough"
| "closest_borough_loop lat lon ((borough, b_lat, b_lon) # rest) min_distance closest_borough =
     (case calculate_distance lat lon b_lat b_lon of
        Inl e \<Rightarrow> Inl e
      | Inr distance \<Rightarrow>
          if (case min_distance of None \<Rightarrow> True | Some m \<Rightarrow> distance < m)
          then closest_borough_loop lat lon rest (Some distance) borough
          else closest_borough_loop lat lon rest min_distance closest_borough)"

definition find_closest_borough :: "real \<Rightarrow> real \<Rightarrow> py_error + string" where
  "find_closest_borough lat lon = closest_borough_loop lat lon borough_centers None ''Manhattan''"

definition zones_record ::
  "builtins \<Rightarrow> pydict \<Rightarrow> pydict \<times> (feature_stats \<Rightarrow> feature_stats)" where
  "zones_record env record =
     (let failed = (record(''pickup_borough'' \<mapsto> ''Unknown'', ''dropoff_borough'' \<mapsto> ''Unknown'',
                           ''trip_type'' \<mapsto> ''Unknown''), id)
      in
      case item_float env record ''pickup_latitude'' of None \<Rightarrow> failed | Some pickup_lat \<Rightarrow>
      case item_float env record ''pickup_longitude'' of None \<Rightarrow> failed | Some pickup_lon \<Rightarrow>
      case item_float env record ''dropoff_latitude'' of None \<Rightarrow> failed | Some dropoff_lat \<Rightarrow>
      case item_float env record ''dropoff_longitude'' of None \<Rightarrow> failed | Some dropoff_lon \<Rightarrow>
      case find_closest_borough pickup_lat pickup_lon of
        Inl e \<Rightarrow> failed
      | Inr pickup_borough \<Rightarrow>
      case find_closest_borough dropoff_lat dropoff_lon of
        Inl e \<Rightarrow>
          ((record(''pickup_borough'' \<mapsto> pickup_borough))
             (''pickup_borough'' \<mapsto> ''Unknown'', ''dropoff_borough'' \<mapsto> ''Unknown'',
              ''trip_type'' \<mapsto> ''Unknown''), id)
      | Inr dropoff_borough \<Rightarrow>
          (record(''pickup_borough'' \<mapsto> pickup_borough,
                  ''dropoff_borough'' \<mapsto> dropoff_borough,
                  ''trip_type'' \<mapsto> (if pickup_borough = dropoff_borough
                                      then ''Intra-borough'' else ''Inter-borough'')),
           features_created_update (\<lambda>n. n + 3)))"

definition classify_trip_zones :: "builtins \<Rightarrow> engineer \<Rightarrow> addr list \<Rightarrow> engineer \<times> addr list" where
  "classify_trip_zones env st data = (for_each_record (zones_record env) st data, data)"

subsection \<open>\_detect\_trip\_patterns\<close>

text \<open>The first loop: a conversion that raises skips the rest of that record's appends
  (\<^verbatim>\<open>continue\<close>), so a record contributes to \<^verbatim>\<open>speeds\<close>, to \<^verbatim>\<open>distances\<close> and to
  \<^verbatim>\<open>durations\<close> only as far as its conversions succeed, in this order.\<close>

fun collect_loop ::
  "builtins \<Rightarrow> pydict list \<Rightarrow> real list \<Rightarrow> real list \<Rightarrow> real list
     \<Rightarrow> real list \<times> real list \<times> real list" where
  "collect_loop env [] speeds distances durations = (speeds, distances, durations)"
| "collect_loop env (record # rest) speeds distances durations =
     (case get_float env record ''trip_speed_kmh'' 0 of
        None \<Rightarrow> collect_loop env rest speeds distances durations
      | Some speed \<Rightarrow>
      case get_float env record ''trip_distance_km'' 0 of
        None \<Rightarrow> collect_loop env rest (speeds @ [speed]) distances durations
      | Some distance \<Rightarrow>
      case get_float env record ''trip_duration'' 0 of
        None \<Rightarrow> collect_loop env rest (speeds @ [speed]) (distances @ [distance]) durations
      | Some duration \<Rightarrow>
          collect_loop env rest (speeds @ [speed]) (distances @ [distance])
            (durations @ [duration]))"

text \<open>The \<^verbatim>\<open>if\<close>/\<^verbatim>\<open>elif\<close> pair on one quantity: at most one of the two labels.  The
  percentile dictionary is indexed inside the \<^verbatim>\<open>try\<close> block, the 90th percentile only when
  the first test fails; \<open>None\<close> stands for the \<^verbatim>\<open>KeyError\<close> of a missing entry, which the
  handler catches.\<close>

definition low_high :: "real \<Rightarrow> (int \<rightharpoonup> real) \<Rightarrow> string \<Rightarrow> string \<Rightarrow> string list option" where
  "low_high x percentiles low high =
     (case percentiles 10 of
        None \<Rightarrow> None
      | Some p10 \<Rightarrow>
          if x < p10 then Some [low]
          else case percentiles 90 of
                 None \<Rightarrow> None
               | Some p90 \<Rightarrow> if x > p90 then Some [high] else Some [])"

definition patterns_record ::
  "builtins \<Rightarrow> (int \<rightharpoonup> real) \<Rightarrow> (int \<rightharpoonup> real) \<Rightarrow> (int \<rightharpoonup> real) \<Rightarrow> pydict
     \<Rightarrow> pydict \<times> (feature_stats \<Rightarrow> feature_stats)" where
  "patterns_record env speed_percentiles distance_percentiles duration_percentiles record =
     (let failed = (record(''trip_patterns'' \<mapsto> ''Unknown''), id)
      in
      case get_float env record ''trip_speed_kmh'' 0 of None \<Rightarrow> failed | Some speed \<Rightarrow>
      case get_float env record ''trip_distance_km'' 0 of None \<Rightarrow> failed | Some distance \<Rightarrow>
      case get_float env record ''trip_duration'' 0 of None \<Rightarrow> failed | Some duration \<Rightarrow>
      case low_high speed speed_percentiles ''Slow'' ''Fast'' of
        None \<Rightarrow> failed | Some speed_patterns \<Rightarrow>
      case low_high distance distance_percentiles ''Short'' ''Long'' of
        None \<Rightarrow> failed | Some distance_patterns \<Rightarrow>
      case low_high duration duration_percentiles ''Quick'' ''Extended'' of
        None \<Rightarrow> failed | Some duration_patterns \<Rightarrow>
      let patterns = speed_patterns @ distance_patterns @ duration_patterns
            @ (if speed < 5 then [''Traffic''] else [])
            @ (if distance < 0.5 then [''Local''] else [])
            @ (if duration > 1800 then [''Journey''] else [])
      in (record(''trip_patterns'' \<mapsto>
                   (if patterns \<noteq> [] then str_join '';'' patterns else ''Normal'')),
          features_created_update (\<lambda>n. n + 1)))"

definition detect_trip_patterns :: "builtins \<Rightarrow> engineer \<Rightarrow> addr list \<Rightarrow> engineer \<times> addr list" where
  "detect_trip_patterns env st data =
     (let (speeds, distances, durations) =
            collect_loop env (map (fe_store st) data) [] [] [];
          speed_percentiles = calculate_percentiles speeds [10, 90];
          distance_percentiles = calculate_percentiles distances [10, 90];
          duration_percentiles = calculate_percentiles durations [10, 90]
      in (for_each_record
            (patterns_record env speed_percentiles distance_percentiles duration_percentiles)
            st data, data))"

subsection \<open>engineer\_features\<close>

text \<open>The six stages in order, started on the records \<^verbatim>\<open>_load_cleaned_data\<close> has put into
  the store; the result carries the enhanced list that is saved to the file.\<close>

definition engineer_features :: "builtins \<Rightarrow> engineer \<Rightarrow> addr list \<Rightarrow> engineer \<times> addr list" where
  "engineer_features env st data =
     (let (st, enhanced_data) = calculate_trip_distance env st data;
          (st, enhanced_data) = calculate_trip_speed env st enhanced_data;
          (st, enhanced_data) = extract_temporal_features env st enhanced_data;
          (st, enhanced_data) = calculate_efficiency_metrics env st enhanced_data;
          (st, enhanced_data) = classify_trip_zones env st enhanced_data;
          (st, enhanced_data) = detect_trip_patterns env st enhanced_data
      in (st, enhanced_data))"

section \<open>A concrete instance of the builtins\<close>

text \<open>The theorems below hold for every instance of the builtins.  To run the model on
  concrete records, this instance reads and prints plain decimal numerals and timestamps in
  the fixed layout \<^verbatim>\<open>YYYY-MM-DD HH:MM:SS\<close>, as they occur in the data files, and agrees with
  Python on them.\<close>

definition digit_of :: "char \<Rightarrow> nat option" where
  "digit_of c =
     map_of [(CHR ''0'', 0), (CHR ''1'', 1), (CHR ''2'', 2), (CHR ''3'', 3), (CHR ''4'', 4),
             (CHR ''5'', 5), (CHR ''6'', 6), (CHR ''7'', 7), (CHR ''8'', 8), (CHR ''9'', 9)] c"

fun digits_value :: "nat \<Rightarrow> string \<Rightarrow> nat option" where
  "digits_value acc [] = Some acc"
| "digits_value acc (c # cs) =
     (case digit_of c of None \<Rightarrow> None | Some d \<Rightarrow> digits_value (10 * acc + d) cs)"

definition plain_nat :: "string \<Rightarrow> nat option" where
  "plain_nat s = (if s = [] then None else digits_value 0 s)"

definition plain_int :: "string \<Rightarrow> int option" where
  "plain_int s =
     (case s of
        c # r \<Rightarrow> if c = CHR ''-'' then map_option (\<lambda>n. - int n) (plain_nat r)
                 else map_option int (plain_nat s)
      | [] \<Rightarrow> None)"

definition plain_unsigned :: "string \<Rightarrow> real option" where
  "plain_unsigned s =
     (let whole = takeWhile (\<lambda>c. c \<noteq> CHR ''.'') s;
          rest = dropWhile (\<lambda>c. c \<noteq> CHR ''.'') s
      in case plain_nat whole of
           None \<Rightarrow> None
         | Some w \<Rightarrow>
             if rest = [] then Some (real w)
             else case plain_nat (tl rest) of
                    None \<Rightarrow> None
                  | Some f \<Rightarrow> Some (real w + real f / 10 ^ length (tl rest)))"

definition plain_float :: "string \<Rightarrow> real option" where
  "plain_float s =
     (case s of
        c # r \<Rightarrow> if c = CHR ''-'' then map_option uminus (plain_unsigned r)
                 else plain_unsigned s
      | [] \<Rightarrow> None)"

text \<open>Days from 1970-01-01 to a civil date of the proleptic Gregorian calendar.\<close>

definition days_from_civil :: "int \<Rightarrow> int \<Rightarrow> int \<Rightarrow> int" where
  "days_from_civil y m d =
     (let y' = (if m \<le> 2 then y - 1 else y);
          era = y' div 400;
          yoe = y' - era * 400;
          doy = (153 * (if m > 2 then m - 3 else m + 9) + 2) div 5 + d - 1;
          doe = yoe * 365 + yoe div 4 - yoe div 100 + doy
      in era * 146097 + doe - 719468)"

definition day_name :: "int \<Rightarrow> string" where
  "day_name days =
     [''Thursday'', ''Friday'', ''Saturday'', ''Sunday'', ''Monday'', ''Tuesday'', ''Wednesday'']
       ! nat (days mod 7)"

definition days_in_month :: "int \<Rightarrow> int \<Rightarrow> int" where
  "days_in_month y m =
     (if m = 2 then (if y mod 4 = 0 \<and> (y mod 100 \<noteq> 0 \<or> y mod 400 = 0) then 29 else 28)
      else if m \<in> {4, 6, 9, 11} then 30 else 31)"

definition plain_strptime :: "string \<Rightarrow> pydatetime option" where
  "plain_strptime s =
     (if length s = 19 \<and> s ! 4 = CHR ''-'' \<and> s ! 7 = CHR ''-'' \<and> s ! 10 = CHR '' ''
         \<and> s ! 13 = CHR '':'' \<and> s ! 16 = CHR '':''
      then
        case (plain_nat (take 4 s), plain_nat (take 2 (drop 5 s)), plain_nat (take 2 (drop 8 s)),
              plain_nat (take 2 (drop 11 s)), plain_nat (take 2 (drop 14 s)),
              plain_nat (take 2 (drop 17 s))) of
          (Some y, Some m, Some d, Some hh, Some mm, Some ss) \<Rightarrow>
            if 1 \<le> y \<and> 1 \<le> m \<and> m \<le> 12 \<and> 1 \<le> d \<and> int d \<le> days_in_month (int y) (int m)
               \<and> hh < 24 \<and> mm < 60 \<and> ss < 60
            then Some \<lparr>dt_seconds = days_from_civil (int y) (int m) (int d) * 86400
                                       + int hh * 3600 + int mm * 60 + int ss,
                       dt_hour = hh, dt_month = m,
                       dt_weekday = day_name (days_from_civil (int y) (int m) (int d))\<rparr>
            else None
        | other \<Rightarrow> None
      else None)"

text \<open>Printing.  A natural number in decimal, most significant digit first.\<close>

function nat_digits :: "nat \<Rightarrow> string" where
  "nat_digits n =
     (if n < 10 then [''0123456789'' ! n]
      else nat_digits (n div 10) @ [''0123456789'' ! (n mod 10)])"
  by pat_completeness auto
termination
  by (relation "measure (\<lambda>n. n)") auto

declare nat_digits.simps [simp del]

definition plain_str_nat :: "nat \<Rightarrow> string" where
  "plain_str_nat n = nat_digits n"

definition plain_str_int :: "int \<Rightarrow> string" where
  "plain_str_int i = (if i < 0 then CHR ''-'' # plain_str_nat (nat (- i)) else plain_str_nat (nat i))"

text \<open>\<^verbatim>\<open>f"{x:.nf}"\<close>: the nearest numeral with \<open>n\<close> decimals (ties to even), zero-padded.\<close>

definition round_half_even :: "real \<Rightarrow> int" where
  "round_half_even x =
     (let f = \<lfloor>x\<rfloor>; r = x - of_int f
      in if r < 1 / 2 then f else if r > 1 / 2 then f + 1 else if even f then f else f + 1)"

definition zero_pad :: "nat \<Rightarrow> string \<Rightarrow> string" where
  "zero_pad n s = replicate (n - length s) (CHR ''0'') @ s"

definition plain_format :: "nat \<Rightarrow> real \<Rightarrow> string" where
  "plain_format n x =
     (let scaled = round_half_even (\<bar>x\<bar> * 10 ^ n);
          whole = plain_str_nat (nat (scaled div 10 ^ n));
          frac = zero_pad n (plain_str_nat (nat (scaled mod 10 ^ n)))
      in (if x < 0 then ''-'' else '''') @ whole @ (if n = 0 then '''' else ''.'' @ frac))"

text \<open>\<^verbatim>\<open>str\<close> of a float, for the integral values only (\<^verbatim>\<open>120.0\<close>); other values are printed
  with six decimals here, which is not Python's shortest representation.\<close>

definition plain_str_float :: "real \<Rightarrow> string" where
  "plain_str_float x =
     (if x = of_int \<lfloor>x\<rfloor> then plain_str_int \<lfloor>x\<rfloor> @ ''.0'' else plain_format 6 x)"

definition plain_builtins :: builtins where
  "plain_builtins =
     \<lparr>to_float = plain_float, to_int = plain_int, strptime = plain_strptime,
      format_fixed = plain_format, str_of_float = plain_str_float, str_of_int = plain_str_int\<rparr>"

subsection \<open>Example records\<close>

text \<open>A trip inside the bounding box, the same trip with a pick-up outside the box, the
  same trip with pick-up and drop-off times exchanged, and the same trip with a duration
  field above the limit.\<close>

definition good_trip :: pydict where
  "good_trip =
     [''vendor_id'' \<mapsto> ''2'', ''store_and_fwd_flag'' \<mapsto> ''N'',
      ''pickup_datetime'' \<mapsto> ''2016-03-14 17:24:55'',
      ''dropoff_datetime'' \<mapsto> ''2016-03-14 17:32:30'',
      ''pickup_longitude'' \<mapsto> ''-73.98'', ''pickup_latitude'' \<mapsto> ''40.75'',
      ''dropoff_longitude'' \<mapsto> ''-73.96'', ''dropoff_latitude'' \<mapsto> ''40.76'',
      ''passenger_count'' \<mapsto> ''1'', ''trip_duration'' \<mapsto> ''455'']"

definition far_trip :: pydict where
  "far_trip = good_trip(''pickup_latitude'' \<mapsto> ''12.5'')"

definition inverted_trip :: pydict where
  "inverted_trip =
     good_trip(''pickup_datetime'' \<mapsto> ''2016-03-14 17:32:30'',
               ''dropoff_datetime'' \<mapsto> ''2016-03-14 17:24:55'')"

definition long_trip :: pydict where
  "long_trip = good_trip(''trip_duration'' \<mapsto> ''5000'')"

definition no_stats :: cleaning_stats where
  "no_stats =
     \<lparr>total_records = 0, valid_records = 0, invalid_records = 0, duplicates_removed = 0,
      missing_values_fixed = 0, outliers_detected = 0, coordinate_errors = 0,
      datetime_errors = 0, duration_errors = 0\<rparr>"

text \<open>Five records read from a file: a good trip, an exact duplicate of it, a trip with
  bad coordinates, a trip with inverted times, a trip that lasts too long.\<close>

definition five_trips :: cleaner where
  "five_trips =
     \<lparr>store = ((\<lambda>a. Map.empty)(0 := good_trip, 1 := good_trip, 2 := far_trip,
                                   3 := inverted_trip, 4 := long_trip)),
      counters = no_stats\<lparr>total_records := 5\<rparr>\<rparr>"

text \<open>One admissible draw of \<^verbatim>\<open>random.sample\<close>: the first elements.\<close>

definition sample_first :: "real list \<Rightarrow> nat \<Rightarrow> real list" where
  "sample_first population k = take k population"

text \<open>A record read from a file without the vendor and the store-and-forward columns.\<close>

definition bare_trip :: pydict where
  "bare_trip =
     [''pickup_datetime'' \<mapsto> ''2016-03-14 17:24:55'',
      ''dropoff_datetime'' \<mapsto> ''2016-03-14 17:32:30'',
      ''pickup_longitude'' \<mapsto> ''-73.98'', ''pickup_latitude'' \<mapsto> ''40.75'',
      ''dropoff_longitude'' \<mapsto> ''-73.96'', ''dropoff_latitude'' \<mapsto> ''40.76'',
      ''passenger_count'' \<mapsto> ''1'', ''trip_duration'' \<mapsto> ''455'']"

definition one_bare_trip :: cleaner where
  "one_bare_trip = \<lparr>store = (\<lambda>a. Map.empty)(0 := bare_trip), counters = no_stats\<rparr>"

text \<open>Whether the loop body substitutes at least one default on a record.\<close>

definition needs_fix :: "pydict \<Rightarrow> bool" where
  "needs_fix record \<longleftrightarrow>
     is_missing record ''passenger_count'' \<or> is_missing record ''store_and_fwd_flag''
     \<or> is_missing record ''vendor_id''"

text \<open>Records as they reach the efficiency step: a moving trip, a trip with zero
  displacement, a trip whose speed field is not a number, and a trip whose duration field
  is not a number (as it is before the speed step).\<close>

definition moving_trip :: pydict where
  "moving_trip =
     [''trip_distance_km'' \<mapsto> ''2.000'', ''trip_duration'' \<mapsto> ''600'',
      ''trip_speed_kmh'' \<mapsto> ''12.00'']"

definition still_trip :: pydict where
  "still_trip =
     [''trip_distance_km'' \<mapsto> ''0.000'', ''trip_duration'' \<mapsto> ''120'',
      ''trip_speed_kmh'' \<mapsto> ''0.00'']"

definition garbled_speed_trip :: pydict where
  "garbled_speed_trip =
     [''trip_distance_km'' \<mapsto> ''1.000'', ''trip_duration'' \<mapsto> ''120'',
      ''trip_speed_kmh'' \<mapsto> ''abc'']"

definition untimed_trip :: pydict where
  "untimed_trip = [''trip_distance_km'' \<mapsto> ''1.000'', ''trip_duration'' \<mapsto> ''abc'']"

definition no_features :: feature_stats where
  "no_features =
     \<lparr>records_processed = 0, features_created = 0, distance_calculations = 0,
      time_features = 0, efficiency_metrics = 0\<rparr>"

definition four_enriched :: engineer where
  "four_enriched =
     \<lparr>fe_store = ((\<lambda>a. Map.empty)(0 := moving_trip, 1 := still_trip, 2 := garbled_speed_trip,
                                      3 := untimed_trip)),
      fe_counters = no_features\<lparr>records_processed := 4\<rparr>\<rparr>"

text \<open>A large cleaned set: 100,001 records, the first 50,000 with a duration of 100 seconds,
  the others with 200 seconds; and a second admissible draw of \<^verbatim>\<open>random.sample\<close>, the last
  elements of the population.\<close>

definition many_trips :: cleaner where
  "many_trips =
     \<lparr>store = (\<lambda>a. if a < 50000 then [''trip_duration'' \<mapsto> ''100'']
                     else [''trip_duration'' \<mapsto> ''200'']),
      counters = no_stats\<lparr>total_records := 100001\<rparr>\<rparr>"

definition sample_last :: "real list \<Rightarrow> nat \<Rightarrow> real list" where
  "sample_last population k = take k (rev population)"

text \<open>The outlier flag a run of \<^verbatim>\<open>_detect_outliers\<close> leaves on a record.\<close>

definition outlier_flag_after :: "py_error + cleaner \<times> addr list \<Rightarrow> addr \<Rightarrow> string option" where
  "outlier_flag_after result a =
     (case result of Inl e \<Rightarrow> None | Inr (st, data) \<Rightarrow> store st a ''outlier_flag'')"

section \<open>Properties of the algorithm library\<close>

subsection \<open>quick\_sort\<close>

declare quick_sort.simps [simp del]

lemma quick_sort_short: "length arr \<le> 1 \<Longrightarrow> quick_sort key reverse arr = arr"
  by (simp add: quick_sort.simps)

lemma quick_sort_step:
  "1 < length arr \<Longrightarrow>
   quick_sort key reverse arr =
     quick_sort key reverse (filter (goes_left key reverse (key (arr ! (length arr div 2)))) arr)
     @ filter (\<lambda>item. key item = key (arr ! (length arr div 2))) arr
     @ quick_sort key reverse (filter (goes_right key reverse (key (arr ! (length arr div 2)))) arr)"
  by (subst quick_sort.simps) (simp add: partition_loop_filter Let_def)

lemma filter_goes_left_shorter:
  "1 < length arr \<Longrightarrow>
   length (filter (goes_left key reverse (key (arr ! (length arr div 2)))) arr) < length arr"
  by (rule length_filter_less [of "arr ! (length arr div 2)"]) (simp_all add: goes_left_def)

lemma filter_goes_right_shorter:
  "1 < length arr \<Longrightarrow>
   length (filter (goes_right key reverse (key (arr ! (length arr div 2)))) arr) < length arr"
  by (rule length_filter_less [of "arr ! (length arr div 2)"]) (simp_all add: goes_right_def)

lemma quick_sort_induct [case_names short step]:
  assumes short: "\<And>arr. length arr \<le> 1 \<Longrightarrow> P arr"
    and step: "\<And>arr pv. 1 < length arr \<Longrightarrow> pv = key (arr ! (length arr div 2)) \<Longrightarrow>
           P (filter (goes_left key reverse pv) arr) \<Longrightarrow>
           P (filter (goes_right key reverse pv) arr) \<Longrightarrow> P arr"
  shows "P arr"
proof (induction arr rule: length_induct)
  case (1 arr)
  show ?case
  proof (cases "length arr \<le> 1")
    case True
    then show ?thesis by (rule short)
  next
    case False
    then have long: "1 < length arr" by simp
    define pv where "pv = key (arr ! (length arr div 2))"
    have l: "P (filter (goes_left key reverse pv) arr)"
      using 1 filter_goes_left_shorter [OF long, of key reverse] by (simp add: pv_def)
    have r: "P (filter (goes_right key reverse pv) arr)"
      using 1 filter_goes_right_shorter [OF long, of key reverse] by (simp add: pv_def)
    from long pv_def l r show ?thesis by (rule step)
  qed
qed

lemma mset_three_way:
  "mset (filter (goes_left key reverse pv) arr) + mset (filter (\<lambda>item. key item = pv) arr)
     + mset (filter (goes_right key reverse pv) arr) = mset arr"
  by (induction arr) (auto simp: goes_left_def goes_right_def)

lemma mset_quick_sort: "mset (quick_sort key reverse arr) = mset arr"
proof (induction arr rule: quick_sort_induct [where key = key and reverse = reverse])
  case (short arr)
  then show ?case by (simp add: quick_sort_short)
next
  case (step arr pv)
  have "mset (quick_sort key reverse arr) =
      mset (filter (goes_left key reverse pv) arr) + mset (filter (\<lambda>item. key item = pv) arr)
       + mset (filter (goes_right key reverse pv) arr)"
    unfolding quick_sort_step [OF step(1)] mset_append step(2) [symmetric] step(3) step(4)
    by (simp only: add.assoc)
  then show ?case by (simp only: mset_three_way)
qed

lemma set_quick_sort: "set (quick_sort key reverse arr) = set arr"
  by (metis mset_quick_sort set_mset_mset)



lemma sorted_quick_sort:
  "sorted_wrt (\<lambda>x y. key_le reverse (key x) (key y)) (quick_sort key reverse arr)"
proof (induction arr rule: quick_sort_induct [where key = key and reverse = reverse])
  case (short arr)
  then show ?case by (cases arr) (simp_all add: quick_sort_short)
next
  case (step arr pv)
  have l: "\<forall>x\<in>set (filter (goes_left key reverse pv) arr). \<forall>y. (key y = pv \<or> goes_right key reverse pv y) \<longrightarrow> key_le reverse (key x) (key y)"
    by (auto simp: goes_left_def goes_right_def key_le_def)
  have m: "\<forall>x\<in>set (filter (\<lambda>item. key item = pv) arr). \<forall>y. (key y = pv \<or> goes_right key reverse pv y) \<longrightarrow> key_le reverse (key x) (key y)"
    by (auto simp: goes_left_def goes_right_def key_le_def)
  have mm: "sorted_wrt (\<lambda>x y. key_le reverse (key x) (key y)) (filter (\<lambda>item. key item = pv) arr)"
    by (rule sorted_wrt_mono_rel [where P = "\<lambda>x y. True"]) (auto simp: key_le_def)
  show ?case
    unfolding quick_sort_step [OF step(1)] step(2) [symmetric] sorted_wrt_append set_quick_sort set_append
    using step(3,4) l m mm by auto
qed

lemma filter_key_quick_sort:
  "filter (\<lambda>item. key item = k) (quick_sort key reverse arr) = filter (\<lambda>item. key item = k) arr"
proof (induction arr rule: quick_sort_induct [where key = key and reverse = reverse])
  case (short arr)
  then show ?case by (simp add: quick_sort_short)
next
  case (step arr pv)
  have split: "filter (\<lambda>item. key item = k) arr =
      filter (\<lambda>item. key item = k) (filter (goes_left key reverse pv) arr)
      @ filter (\<lambda>item. key item = k) (filter (\<lambda>item. key item = pv) arr)
      @ filter (\<lambda>item. key item = k) (filter (goes_right key reverse pv) arr)"
  proof (cases "k = pv")
    case True
    have 1: "filter (\<lambda>item. key item = k) (filter (goes_left key reverse pv) arr) = []"
      using True by (auto simp: filter_empty_conv goes_left_def)
    have 3: "filter (\<lambda>item. key item = k) (filter (goes_right key reverse pv) arr) = []"
      using True by (auto simp: filter_empty_conv goes_right_def)
    have 2: "filter (\<lambda>item. key item = k) (filter (\<lambda>item. key item = pv) arr)
         = filter (\<lambda>item. key item = k) arr"
      using True by (auto intro!: filter_cong)
    show ?thesis by (simp only: 1 2 3 append_Nil append_Nil2)
  next
    case False
    show ?thesis
    proof -
      have disj: "(\<forall>x. key x = k \<longrightarrow> goes_left key reverse pv x) \<or>
                  (\<forall>x. key x = k \<longrightarrow> goes_right key reverse pv x)"
        using False by (auto simp: goes_left_def goes_right_def)
      then show ?thesis
      proof
        assume a: "\<forall>x. key x = k \<longrightarrow> goes_left key reverse pv x"
        have 1: "filter (\<lambda>item. key item = k) (filter (goes_left key reverse pv) arr)
             = filter (\<lambda>item. key item = k) arr"
          using a by (auto intro!: filter_cong)
        have 2: "filter (\<lambda>item. key item = k) (filter (\<lambda>item. key item = pv) arr) = []"
          using False by (auto simp: filter_empty_conv)
        have 3: "filter (\<lambda>item. key item = k) (filter (goes_right key reverse pv) arr) = []"
          using a by (auto simp: filter_empty_conv goes_right_def)
        show ?thesis by (simp only: 1 2 3 append_Nil2)
      next
        assume a: "\<forall>x. key x = k \<longrightarrow> goes_right key reverse pv x"
        have 1: "filter (\<lambda>item. key item = k) (filter (goes_right key reverse pv) arr)
             = filter (\<lambda>item. key item = k) arr"
          using a by (auto intro!: filter_cong)
        have 2: "filter (\<lambda>item. key item = k) (filter (\<lambda>item. key item = pv) arr) = []"
          using False by (auto simp: filter_empty_conv)
        have 3: "filter (\<lambda>item. key item = k) (filter (goes_left key reverse pv) arr) = []"
          using a by (auto simp: filter_empty_conv goes_right_def)
        show ?thesis by (simp only: 1 2 3 append_Nil append_Nil2)
      qed
    qed
  qed
  show ?case
    unfolding quick_sort_step [OF step(1)] filter_append step(2) [symmetric] step(3) step(4)
    by (rule split [symmetric])
qed

lemma quick_sort_example:
  "quick_sort fst False [(5::int, ''a''), (5, ''b''), (3, ''c'')] = [(3, ''c''), (5, ''a''), (5, ''b'')]"
  by (simp add: quick_sort_step quick_sort_short goes_left_def goes_right_def)

text \<open>
  Claim C3.  For every list, key selector and \<open>reverse\<close> flag, \<open>quick_sort\<close> returns a
  permutation of its input (equal multisets) that is ordered by the key, ascending, or
  descending when \<open>reverse\<close> is set, and that is stable: for every key value, the items
  carrying that key appear in the output in the order they had in the input.  Lists of
  zero or one element are returned unchanged, and the list of the specification's example
  is sorted as the specification says.
\<close>

theorem quick_sort_sorted_stable_permutation:
  "mset (quick_sort key reverse arr) = mset arr
   \<and> sorted_wrt (\<lambda>x y. if reverse then key y \<le> key x else key x \<le> key y)
        (quick_sort key reverse arr)
   \<and> (\<forall>k. filter (\<lambda>item. key item = k) (quick_sort key reverse arr)
           = filter (\<lambda>item. key item = k) arr)
   \<and> quick_sort key reverse [] = []
   \<and> quick_sort key reverse [x] = [x]
   \<and> quick_sort fst False [(5::int, ''a''), (5, ''b''), (3, ''c'')]
       = [(3, ''c''), (5, ''a''), (5, ''b'')]"
  using sorted_quick_sort [of reverse key arr]
  by (simp add: mset_quick_sort filter_key_quick_sort quick_sort_short quick_sort_example
      key_le_def)


subsection \<open>calculate\_percentiles\<close>

lemma percentile_loop_lookup:
  "percentile_loop sv ps result p =
     (if p \<in> set ps \<and> 0 \<le> p \<and> p \<le> 100
      then Some (if p = 0 then sv ! 0 else if p = 100 then last sv else interpolate sv p)
      else result p)"
  by (induction ps arbitrary: result) auto

lemma sorted_values_sort:
  "map fst (quick_sort fst False (zip values [0..<length values])) = sort values"
proof -
  let ?qs = "quick_sort fst False (zip values [0..<length values])"
  have "mset (map fst ?qs) = image_mset fst (mset ?qs)" by simp
  also have "\<dots> = image_mset fst (mset (zip values [0..<length values]))"
    by (simp only: mset_quick_sort)
  also have "\<dots> = mset (map fst (zip values [0..<length values]))"
    by (simp only: mset_map)
  also have "\<dots> = mset values" by (simp only: map_fst_zip length_upt diff_zero)
  finally have m: "mset (map fst ?qs) = mset values" .
  have "sorted (map fst ?qs)"
    using sorted_quick_sort [of False fst "zip values [0..<length values]"]
    by (simp add: sorted_wrt_map key_le_def)
  with m show ?thesis by (metis properties_for_sort)
qed

lemma sort_nth0_Min: "xs \<noteq> [] \<Longrightarrow> sort xs ! 0 = Min (set xs)"
proof -
  assume ne: "xs \<noteq> []"
  then have "sort xs \<noteq> []" by (metis length_sort length_0_conv)
  then obtain y ys where s: "sort xs = y # ys" by (cases "sort xs") auto
  have "sorted (y # ys)" by (metis s sorted_sort)
  then have "\<forall>z\<in>set (y # ys). y \<le> z" by auto
  moreover have "set (y # ys) = set xs" by (metis s set_sort)
  ultimately have "Min (set xs) = y" by (intro Min_eqI) auto
  then show ?thesis by (simp add: s)
qed

lemma sorted_le_last: "sorted xs \<Longrightarrow> z \<in> set xs \<Longrightarrow> z \<le> last (xs :: 'a::linorder list)"
  by (induction xs) auto

lemma sort_last_Max: "xs \<noteq> [] \<Longrightarrow> last (sort xs) = Max (set xs)"
proof -
  assume ne: "xs \<noteq> []"
  then have n: "sort xs \<noteq> []" by (metis length_sort length_0_conv)
  have "\<forall>z\<in>set xs. z \<le> last (sort xs)"
    using sorted_le_last [of "sort xs"] by simp
  moreover have "last (sort xs) \<in> set xs" using n by (metis last_in_set set_sort)
  ultimately have "Max (set xs) = last (sort xs)" by (intro Max_eqI) auto
  then show ?thesis by simp
qed

lemma interpolate_sort:
  assumes ne: "values \<noteq> []" and p: "0 < p" "p < 100"
  shows "interpolate (sort values) p = spec_percentile values p"
proof -
  define n where "n = length values"
  define pos where "pos = (real_of_int p / 100) * real (n - 1)"
  define w where "w = pos - real_of_int \<lfloor>pos\<rfloor>"
  have n1: "1 \<le> n" using ne by (cases "values") (simp_all add: n_def)
  have pos0: "0 \<le> pos" using p by (simp add: pos_def)
  then have fl0: "0 \<le> \<lfloor>pos\<rfloor>" by simp
  have lower: "real (nat \<lfloor>pos\<rfloor>) = real_of_int \<lfloor>pos\<rfloor>" using fl0 by simp
  have lhs: "interpolate (sort values) p =
      sort values ! nat \<lfloor>pos\<rfloor> * (1 - w)
      + sort values ! min (nat \<lfloor>pos\<rfloor> + 1) (n - 1) * w"
    unfolding interpolate_def Let_def length_sort n_def [symmetric] pos_def [symmetric] lower
      w_def [symmetric] by (rule refl)
  have rhs: "spec_percentile values p =
      sort values ! nat \<lfloor>pos\<rfloor> * (1 - w) + sort values ! nat \<lceil>pos\<rceil> * w"
  proof -
    have "p \<noteq> 0" "p \<noteq> 100" using p by auto
    then show ?thesis
      unfolding spec_percentile_def Let_def n_def [symmetric] pos_def [symmetric]
        w_def [symmetric] by (simp only: if_False)
  qed
  show ?thesis
  proof (cases "w = 0")
    case True
    then show ?thesis by (simp add: lhs rhs)
  next
    case False
    then have nonint: "pos \<noteq> real_of_int \<lfloor>pos\<rfloor>" by (simp add: w_def)
    then have ceil: "\<lceil>pos\<rceil> = \<lfloor>pos\<rfloor> + 1" by (simp add: ceiling_altdef)
    have "pos \<noteq> 0" using nonint by auto
    then have n2: "0 < n - 1" by (cases "n - 1") (auto simp: pos_def)
    have "real_of_int p / 100 < 1" using p by simp
    moreover have "0 < real (n - 1)" using n2 by simp
    ultimately have "(real_of_int p / 100) * real (n - 1) < 1 * real (n - 1)"
      by (rule mult_strict_right_mono)
    then have "pos < real (n - 1)" by (simp only: pos_def mult_1)
    then have "\<lfloor>pos\<rfloor> < int (n - 1)" by (simp add: floor_less_iff)
    then have "nat \<lfloor>pos\<rfloor> + 1 \<le> n - 1" using fl0 by linarith
    then have up: "min (nat \<lfloor>pos\<rfloor> + 1) (n - 1) = nat \<lfloor>pos\<rfloor> + 1" by simp
    have "nat \<lceil>pos\<rceil> = nat \<lfloor>pos\<rfloor> + 1" using ceil fl0 by linarith
    then show ?thesis by (simp only: lhs rhs up)
  qed
qed

lemma map_of_zero_sentinel:
  "map_of (map (\<lambda>p. (p, 0::real)) percentiles) p = (if p \<in> set percentiles then Some 0 else None)"
  by (induction percentiles) auto

lemma calculate_percentiles_nonempty:
  assumes "values \<noteq> []"
  shows "calculate_percentiles values percentiles p =
     (if p \<in> set percentiles \<and> 0 \<le> p \<and> p \<le> 100 then Some (spec_percentile values p) else None)"
proof -
  have "calculate_percentiles values percentiles p =
      percentile_loop (sort values) percentiles Map.empty p"
    using assms by (simp add: calculate_percentiles_def Let_def sorted_values_sort)
  also have "\<dots> = (if p \<in> set percentiles \<and> 0 \<le> p \<and> p \<le> 100
      then Some (if p = 0 then sort values ! 0 else if p = 100 then last (sort values)
                 else interpolate (sort values) p) else None)"
    by (simp only: percentile_loop_lookup)
  also have "\<dots> = (if p \<in> set percentiles \<and> 0 \<le> p \<and> p \<le> 100
      then Some (spec_percentile values p) else None)"
  proof (cases "p = 0 \<or> p = 100")
    case True
    then show ?thesis
      using assms by (auto simp: spec_percentile_def sort_nth0_Min sort_last_Max)
  next
    case False
    show ?thesis
    proof (cases "0 \<le> p \<and> p \<le> 100")
      case True
      with False have "0 < p" "p < 100" by auto
      with False show ?thesis using interpolate_sort [OF assms, of p] by simp
    next
      case False
      then show ?thesis by auto
    qed
  qed
  finally show ?thesis .
qed

lemma one_to_ten_sorted:
  "sort [1, 2, 3, 4, 5, 6, 7, 8, 9, 10 :: real] = [1, 2, 3, 4, 5, 6, 7, 8, 9, 10]"
  by (simp add: sorted_sort_id)

lemma percentile_examples:
  "calculate_percentiles [1, 2, 3, 4, 5, 6, 7, 8, 9, 10] [50] 50 = Some 5.5"
  "calculate_percentiles [1, 2, 3, 4, 5, 6, 7, 8, 9, 10] [25] 25 = Some 3.25"
  by (simp_all add: calculate_percentiles_nonempty spec_percentile_def Let_def one_to_ten_sorted)

text \<open>
  Claim C2.  On a non-empty list, the dictionary returned by \<open>calculate_percentiles\<close> holds,
  for each requested percentile \<open>p\<close> in \<open>[0, 100]\<close>, the specification's percentile: the
  minimum for \<open>p = 0\<close>, the maximum for \<open>p = 100\<close>, and otherwise the linear interpolation
  between the floor- and ceiling-indexed elements of the ascending-sorted values at the
  fractional rank \<open>(p / 100) * (n - 1)\<close> (a requested percentile outside \<open>[0, 100]\<close> is
  skipped).  On the empty list every requested percentile is mapped to the sentinel \<open>0\<close>.
  The 50th and 25th percentiles of \<open>1, \<dots>, 10\<close> are \<open>5.5\<close> and \<open>3.25\<close>.
\<close>

theorem calculate_percentiles_spec:
  "(values \<noteq> [] \<longrightarrow>
      calculate_percentiles values percentiles p =
        (if p \<in> set percentiles \<and> 0 \<le> p \<and> p \<le> 100
         then Some (spec_percentile values p) else None))
   \<and> calculate_percentiles [] percentiles p = (if p \<in> set percentiles then Some 0 else None)
   \<and> calculate_percentiles [1, 2, 3, 4, 5, 6, 7, 8, 9, 10] [50] 50 = Some 5.5
   \<and> calculate_percentiles [1, 2, 3, 4, 5, 6, 7, 8, 9, 10] [25] 25 = Some 3.25"
  by (simp add: calculate_percentiles_nonempty percentile_examples)
    (simp add: calculate_percentiles_def map_of_zero_sentinel)

theorem calculate_percentiles_spec_witness:
  "[3, 1, 2 :: real] \<noteq> []
   \<and> calculate_percentiles [3, 1, 2] [0, 50, 100] 0 = Some 1
   \<and> calculate_percentiles [3, 1, 2] [0, 50, 100] 50 = Some 2
   \<and> calculate_percentiles [3, 1, 2] [0, 50, 100] 100 = Some 3
   \<and> calculate_percentiles [3, 1, 2] [0, 50, 100] 101 = None"
  using calculate_percentiles_spec [of "[3, 1, 2]" "[0, 50, 100]" 0]
    calculate_percentiles_spec [of "[3, 1, 2]" "[0, 50, 100]" 50]
    calculate_percentiles_spec [of "[3, 1, 2]" "[0, 50, 100]" 100]
    calculate_percentiles_spec [of "[3, 1, 2]" "[0, 50, 100]" 101]
  by (simp add: spec_percentile_def Let_def)

subsection \<open>detect\_outliers\_iqr\<close>

lemma outlier_loop_filter:
  "outlier_loop lb ub ivs acc = acc @ map fst (filter (\<lambda>(i, v). v < lb \<or> v > ub) ivs)"
  by (induction lb ub ivs acc rule: outlier_loop.induct) simp_all

lemma filter_enumerate:
  "map fst (filter (\<lambda>(i, v). P v) (enumerate_list xs)) = filter (\<lambda>i. P (xs ! i)) [0..<length xs]"
proof -
  have "enumerate_list xs = map (\<lambda>i. (i, xs ! i)) [0..<length xs]"
    unfolding enumerate_list_def
    by (rule nth_equalityI) simp_all
  then show ?thesis by (simp add: filter_map comp_def)
qed

lemma outlier_loop_indices:
  "outlier_loop lb ub (enumerate_list xs) [] = filter (\<lambda>i. xs ! i < lb \<or> xs ! i > ub) [0..<length xs]"
  using filter_enumerate [of "\<lambda>v. v < lb \<or> v > ub" xs] by (simp add: outlier_loop_filter)

lemma detect_outliers_iqr_short:
  "length values < 4 \<Longrightarrow> detect_outliers_iqr values m = Inr ([], Map.empty)"
  by (simp add: detect_outliers_iqr_def)

lemma detect_outliers_iqr_long:
  assumes "4 \<le> length values"
  shows "detect_outliers_iqr values m =
    (let q1 = spec_percentile values 25;
         q3 = spec_percentile values 75;
         lb = q1 - m * (q3 - q1);
         ub = q3 + m * (q3 - q1);
         idx = filter (\<lambda>i. values ! i < lb \<or> values ! i > ub) [0..<length values]
     in Inr (idx, [''q1'' \<mapsto> q1, ''q3'' \<mapsto> q3, ''iqr'' \<mapsto> q3 - q1,
                   ''lower_bound'' \<mapsto> lb, ''upper_bound'' \<mapsto> ub,
                   ''outlier_count'' \<mapsto> real (length idx)]))"
proof -
  have ne: "values \<noteq> []" using assms by auto
  have p25: "calculate_percentiles values [25, 75] 25 = Some (spec_percentile values 25)"
    and p75: "calculate_percentiles values [25, 75] 75 = Some (spec_percentile values 75)"
    by (simp_all add: calculate_percentiles_nonempty [OF ne])
  show ?thesis
    using assms
    by (simp add: detect_outliers_iqr_def Let_def dict_get_def p25 p75 outlier_loop_indices)
qed

text \<open>
  Claim C5.  With fewer than four values \<open>detect_outliers_iqr\<close> returns no outlier index and
  an empty statistics dictionary.  With four or more values and any multiplier \<open>m\<close> it returns
  the statistics \<open>q1\<close> (the 25th percentile), \<open>q3\<close> (the 75th percentile), \<open>iqr = q3 - q1\<close> and
  the bounds \<open>q1 - m * iqr\<close> and \<open>q3 + m * iqr\<close>, and its index list holds exactly the positions
  of the values strictly outside the bounds: a position in the list has its value below the
  lower or above the upper bound, a position not in the list has its value within them.
\<close>

theorem detect_outliers_iqr_spec:
  "(length values < 4 \<longrightarrow> detect_outliers_iqr values m = Inr ([], Map.empty))
   \<and> (4 \<le> length values \<longrightarrow>
        (\<exists>idx stats.
           detect_outliers_iqr values m = Inr (idx, stats)
           \<and> stats ''q1'' = Some (spec_percentile values 25)
           \<and> stats ''q3'' = Some (spec_percentile values 75)
           \<and> stats ''iqr'' = Some (spec_percentile values 75 - spec_percentile values 25)
           \<and> stats ''lower_bound'' =
                Some (spec_percentile values 25
                      - m * (spec_percentile values 75 - spec_percentile values 25))
           \<and> stats ''upper_bound'' =
                Some (spec_percentile values 75
                      + m * (spec_percentile values 75 - spec_percentile values 25))
           \<and> stats ''outlier_count'' = Some (real (length idx))
           \<and> distinct idx
           \<and> (\<forall>i. i \<in> set idx \<longleftrightarrow>
                  i < length values
                  \<and> (values ! i < spec_percentile values 25
                                    - m * (spec_percentile values 75 - spec_percentile values 25)
                     \<or> values ! i > spec_percentile values 75
                                    + m * (spec_percentile values 75 - spec_percentile values 25)))))"
proof (intro conjI impI)
  assume "length values < 4"
  then show "detect_outliers_iqr values m = Inr ([], Map.empty)"
    by (rule detect_outliers_iqr_short)
next
  assume long: "4 \<le> length values"
  define lb where "lb = spec_percentile values 25
      - m * (spec_percentile values 75 - spec_percentile values 25)"
  define ub where "ub = spec_percentile values 75
      + m * (spec_percentile values 75 - spec_percentile values 25)"
  define idx where "idx = filter (\<lambda>i. values ! i < lb \<or> values ! i > ub) [0..<length values]"
  define stats where "stats = [''q1'' \<mapsto> spec_percentile values 25,
      ''q3'' \<mapsto> spec_percentile values 75,
      ''iqr'' \<mapsto> spec_percentile values 75 - spec_percentile values 25,
      ''lower_bound'' \<mapsto> lb, ''upper_bound'' \<mapsto> ub,
      ''outlier_count'' \<mapsto> real (length idx)]"
  have run: "detect_outliers_iqr values m = Inr (idx, stats)"
    unfolding detect_outliers_iqr_long [OF long] Let_def stats_def idx_def lb_def ub_def
    by (rule refl)
  have "distinct idx" by (simp add: idx_def)
  moreover have "\<forall>i. i \<in> set idx \<longleftrightarrow> i < length values \<and> (values ! i < lb \<or> values ! i > ub)"
    by (auto simp: idx_def)
  moreover have "stats ''q1'' = Some (spec_percentile values 25)"
    "stats ''q3'' = Some (spec_percentile values 75)"
    "stats ''iqr'' = Some (spec_percentile values 75 - spec_percentile values 25)"
    "stats ''lower_bound'' = Some lb" "stats ''upper_bound'' = Some ub"
    "stats ''outlier_count'' = Some (real (length idx))"
    by (simp_all add: stats_def)
  ultimately show "\<exists>idx stats.
           detect_outliers_iqr values m = Inr (idx, stats)
           \<and> stats ''q1'' = Some (spec_percentile values 25)
           \<and> stats ''q3'' = Some (spec_percentile values 75)
           \<and> stats ''iqr'' = Some (spec_percentile values 75 - spec_percentile values 25)
           \<and> stats ''lower_bound'' =
                Some (spec_percentile values 25
                      - m * (spec_percentile values 75 - spec_percentile values 25))
           \<and> stats ''upper_bound'' =
                Some (spec_percentile values 75
                      + m * (spec_percentile values 75 - spec_percentile values 25))
           \<and> stats ''outlier_count'' = Some (real (length idx))
           \<and> distinct idx
           \<and> (\<forall>i. i \<in> set idx \<longleftrightarrow>
                  i < length values
                  \<and> (values ! i < spec_percentile values 25
                                    - m * (spec_percentile values 75 - spec_percentile values 25)
                     \<or> values ! i > spec_percentile values 75
                                    + m * (spec_percentile values 75 - spec_percentile values 25)))"
    using run unfolding lb_def ub_def by blast
qed

lemma five_sorted: "sort [1, 2, 3, 4, 100 :: real] = [1, 2, 3, 4, 100]"
  by (simp add: sorted_sort_id)

theorem detect_outliers_iqr_spec_witness:
  "length [1, 2, 3 :: real] < 4 \<and> detect_outliers_iqr [1, 2, 3] 2 = Inr ([], Map.empty)
   \<and> 4 \<le> length [1, 2, 3, 4, 100 :: real]
   \<and> detect_outliers_iqr [1, 2, 3, 4, 100] 2 =
       Inr ([4], [''q1'' \<mapsto> 2, ''q3'' \<mapsto> 4, ''iqr'' \<mapsto> 2, ''lower_bound'' \<mapsto> - 2,
                  ''upper_bound'' \<mapsto> 8, ''outlier_count'' \<mapsto> 1])"
proof -
  have s: "length [1, 2, 3 :: real] < 4" by simp
  have l: "4 \<le> length [1, 2, 3, 4, 100 :: real]" by simp
  have p: "spec_percentile [1, 2, 3, 4, 100] 25 = 2" "spec_percentile [1, 2, 3, 4, 100] 75 = 4"
    by (simp_all add: spec_percentile_def Let_def five_sorted)
  from detect_outliers_iqr_spec [of "[1, 2, 3, 4, 100]" 2] l
  obtain idx stats where r: "detect_outliers_iqr [1, 2, 3, 4, 100] 2 = Inr (idx, stats)"
    by blast
  have "detect_outliers_iqr [1, 2, 3, 4, 100] 2 =
       Inr ([4], [''q1'' \<mapsto> 2, ''q3'' \<mapsto> 4, ''iqr'' \<mapsto> 2, ''lower_bound'' \<mapsto> - 2,
                  ''upper_bound'' \<mapsto> 8, ''outlier_count'' \<mapsto> 1])"
    by (simp add: detect_outliers_iqr_long Let_def p upt_rec)
  moreover have "detect_outliers_iqr [1, 2, 3] 2 = Inr ([], Map.empty)"
    using detect_outliers_iqr_spec [of "[1, 2, 3]" 2] s by blast
  ultimately show ?thesis using s l by blast
qed

subsection \<open>calculate\_distance\<close>

lemma sin_half_sq: "(sin (x / 2))\<^sup>2 = (1 - cos x) / 2" for x :: real
  using cos_double_sin [of "x / 2"] by simp

lemma cos_half_sq: "(cos (x / 2))\<^sup>2 = (1 + cos x) / 2" for x :: real
  using cos_double_cos [of "x / 2"] by simp

lemma cos_cos_product: "cos a * cos b = (cos (a - b) + cos (a + b)) / 2" for a b :: real
  by (simp add: cos_add cos_diff)

lemma cos_diff_sym: "cos (a - b) = cos (b - a)" for a b :: real
  using cos_minus [of "b - a"] by (simp del: cos_minus)

lemma cos_cos_rewrite: "cos a * cos b = (cos (b - a) + cos (a + b)) / 2" for a b :: real
  using cos_cos_product [of a b] cos_diff_sym [of a b] by simp

lemma one_plus_cos_nonneg: "0 \<le> (1 + cos x) / 2" for x :: real
proof -
  have "- 1 \<le> cos x" by (rule cos_ge_minus_one)
  then have "0 \<le> 1 + cos x" by linarith
  then show ?thesis by simp
qed

lemma one_minus_cos_nonneg: "0 \<le> (1 - cos x) / 2" for x :: real
proof -
  have "cos x \<le> 1" by (rule cos_le_one)
  then have "0 \<le> 1 - cos x" by linarith
  then show ?thesis by simp
qed

lemma haversine_a_nonneg: "0 \<le> haversine_a p1 l1 p2 l2"
proof -
  define s where "s = (sin ((l2 - l1) / 2))\<^sup>2"
  have s: "0 \<le> s" "s \<le> 1" by (simp_all add: s_def abs_square_le_1)
  have eq: "haversine_a p1 l1 p2 l2 =
      (1 - cos (p2 - p1)) / 2 + (cos (p2 - p1) + cos (p1 + p2)) / 2 * s"
    unfolding haversine_a_def s_def [symmetric] sin_half_sq [of "p2 - p1"] cos_cos_rewrite
    by (rule refl)
  have "(1 - cos (p2 - p1)) / 2 + (cos (p2 - p1) + cos (p1 + p2)) / 2 * s
      = (1 - cos (p2 - p1)) / 2 * (1 - s) + (1 + cos (p1 + p2)) / 2 * s"
    by (simp add: field_simps)
  moreover have "0 \<le> (1 - cos (p2 - p1)) / 2 * (1 - s)"
    using s by (intro mult_nonneg_nonneg one_minus_cos_nonneg) simp
  moreover have "0 \<le> (1 + cos (p1 + p2)) / 2 * s"
    using s by (intro mult_nonneg_nonneg one_plus_cos_nonneg)
  ultimately show ?thesis using eq by linarith
qed

lemma haversine_a_le_1: "haversine_a p1 l1 p2 l2 \<le> 1"
proof -
  define s where "s = (sin ((l2 - l1) / 2))\<^sup>2"
  have s: "0 \<le> s" "s \<le> 1" by (simp_all add: s_def abs_square_le_1)
  have eq: "haversine_a p1 l1 p2 l2 =
      (1 - cos (p2 - p1)) / 2 + (cos (p2 - p1) + cos (p1 + p2)) / 2 * s"
    unfolding haversine_a_def s_def [symmetric] sin_half_sq [of "p2 - p1"] cos_cos_rewrite
    by (rule refl)
  have "1 - ((1 - cos (p2 - p1)) / 2 + (cos (p2 - p1) + cos (p1 + p2)) / 2 * s)
      = (1 + cos (p2 - p1)) / 2 * (1 - s) + (1 - cos (p1 + p2)) / 2 * s"
    by (simp add: field_simps)
  moreover have "0 \<le> (1 + cos (p2 - p1)) / 2 * (1 - s)"
    using s by (intro mult_nonneg_nonneg one_plus_cos_nonneg) simp
  moreover have "0 \<le> (1 - cos (p1 + p2)) / 2 * s"
    using s by (intro mult_nonneg_nonneg one_minus_cos_nonneg)
  ultimately show ?thesis using eq by linarith
qed

lemma haversine_a_sym: "haversine_a p1 l1 p2 l2 = haversine_a p2 l2 p1 l1"
  unfolding haversine_a_def sin_half_sq
  by (simp add: cos_diff_sym [of p2 p1] cos_diff_sym [of l2 l1] mult.commute)

lemma calculate_distance_eq:
  "calculate_distance lat1 lon1 lat2 lon2 =
     Inr (6371 * (2 * arcsin (sqrt (haversine_a (radians lat1) (radians lon1) (radians lat2) (radians lon2)))))"
proof -
  let ?a = "haversine_a (radians lat1) (radians lon1) (radians lat2) (radians lon2)"
  have 0: "\<not> ?a < 0" using haversine_a_nonneg [of "radians lat1" "radians lon1" "radians lat2" "radians lon2"] by simp
  have "sqrt ?a \<le> 1" using haversine_a_le_1 [of "radians lat1" "radians lon1" "radians lat2" "radians lon2"] by simp
  moreover have "0 \<le> sqrt ?a" using 0 by simp
  ultimately have 1: "\<not> (sqrt ?a < - 1 \<or> 1 < sqrt ?a)" by linarith
  show ?thesis
    unfolding calculate_distance_def Let_def haversine_a_def [symmetric]
    using 0 1 by (simp add: math_sqrt_def math_asin_def)
qed

text \<open>
  Claim C6.  Over the reals the haversine computation never leaves the domain of
  \<^verbatim>\<open>math.sqrt\<close> and \<^verbatim>\<open>math.asin\<close>, so \<open>calculate_distance\<close> always returns a distance; the
  distance is symmetric in its two points, zero for coincident points and never negative.
\<close>

theorem calculate_distance_metric_properties:
  "calculate_distance lat1 lon1 lat2 lon2 = calculate_distance lat2 lon2 lat1 lon1
   \<and> calculate_distance lat1 lon1 lat1 lon1 = Inr 0
   \<and> (\<exists>d. calculate_distance lat1 lon1 lat2 lon2 = Inr d \<and> 0 \<le> d)"
proof (intro conjI)
  show "calculate_distance lat1 lon1 lat2 lon2 = calculate_distance lat2 lon2 lat1 lon1"
    unfolding calculate_distance_eq
    by (simp only: haversine_a_sym [of "radians lat1" "radians lon1"])
  show "calculate_distance lat1 lon1 lat1 lon1 = Inr 0"
    unfolding calculate_distance_eq by (simp add: haversine_a_def)
  let ?a = "haversine_a (radians lat1) (radians lon1) (radians lat2) (radians lon2)"
  have "0 \<le> sqrt ?a" using haversine_a_nonneg [of "radians lat1" "radians lon1" "radians lat2" "radians lon2"] by simp
  moreover have "sqrt ?a \<le> 1"
    using haversine_a_le_1 [of "radians lat1" "radians lon1" "radians lat2" "radians lon2"] by simp
  ultimately have "arcsin 0 \<le> arcsin (sqrt ?a)" by (intro arcsin_le_arcsin) simp_all
  then have "0 \<le> arcsin (sqrt ?a)" by simp
  then show "\<exists>d. calculate_distance lat1 lon1 lat2 lon2 = Inr d \<and> 0 \<le> d"
    unfolding calculate_distance_eq by simp
qed

subsection \<open>find\_top\_k\<close>

text \<open>
  Claim C4.  The claim promises, for every \<open>k \<le> len(items)\<close>, the \<open>k\<close> largest items; for
  \<open>k = 0\<close> that is the empty list.  On a non-empty list and \<open>k = 0\<close> the loop skips the
  insertion branch (\<open>len(heap) < 0\<close> is false) and reads \<^verbatim>\<open>heap[0]\<close> of the empty heap:
  \<open>find_top_k\<close> raises \<^verbatim>\<open>IndexError\<close> instead of returning.
\<close>

theorem find_top_k_zero_raises:
  "find_top_k fst 0 [(5 :: int, ''a'')] = Inl IndexError"
  by (simp add: find_top_k_def)

lemma find_top_k_example:
  "find_top_k fst 2 [(5 :: int, ''a''), (9, ''b''), (3, ''c''), (7, ''d'')] = Inr [(9, ''b''), (7, ''d'')]"
  by (simp add: find_top_k_def heapify_up.simps heapify_down.simps swap_def Let_def
      quick_sort_step quick_sort_short goes_left_def goes_right_def)

subsection \<open>The cleaning pipeline\<close>

lemma remove_duplicates_loop_length:
  "length (snd (remove_duplicates_loop st data seen acc)) \<le> length acc + length data"
proof (induction data arbitrary: st seen acc)
  case Nil
  then show ?case by simp
next
  case (Cons a data)
  show ?case
  proof (cases "unique_key (store st a) \<notin> seen")
    case True
    then show ?thesis
      using Cons [of st "insert (unique_key (store st a)) seen" "acc @ [a]"] by simp
  next
    case False
    then show ?thesis
      using Cons [of "counters_update (duplicates_removed_update (\<lambda>n. n + 1)) st" seen acc]
      by simp
  qed
qed

lemma validate_coordinates_loop_length:
  "length (snd (validate_coordinates_loop env st data acc)) \<le> length acc + length data"
proof (induction data arbitrary: st acc)
  case Nil
  then show ?case by simp
next
  case (Cons a data)
  show ?case
  proof (cases "coordinates_valid env (store st a) = Some True")
    case True
    then show ?thesis using Cons [of st "acc @ [a]"] by simp
  next
    case False
    then show ?thesis
      using Cons [of "store_update (set_field a ''validity_flag'' ''INVALID_COORDINATES'')
               (counters_update (coordinate_errors_update (\<lambda>n. n + 1)) st)" acc]
      by simp
  qed
qed

lemma validate_trip_duration_loop_length:
  "length (snd (validate_trip_duration_loop env st data acc)) \<le> length acc + length data"
proof (induction data arbitrary: st acc)
  case Nil
  then show ?case by simp
next
  case (Cons a data)
  show ?case
  proof (cases "duration_valid env (store st a) = Some True")
    case True
    then show ?thesis using Cons [of st "acc @ [a]"] by simp
  next
    case False
    then show ?thesis
      using Cons [of "store_update (set_field a ''validity_flag'' ''INVALID_DURATION_OR_PASSENGERS'')
               (counters_update (duration_errors_update (\<lambda>n. n + 1)) st)" acc]
      by simp
  qed
qed

lemma validate_datetime_loop_length:
  "validate_datetime_loop env st data acc = Inr (st', out) \<Longrightarrow>
   length out \<le> length acc + length data"
proof (induction data arbitrary: st acc)
  case Nil
  then show ?case by simp
next
  case (Cons a data)
  show ?case
  proof (cases "datetime_check env (store st a)")
    case (Inl e)
    with Cons.prems show ?thesis by simp
  next
    case (Inr r)
    show ?thesis
    proof (cases r)
      case None
      with Inr Cons.prems Cons.IH [of _ acc] show ?thesis by fastforce
    next
      case (Some d)
      with Inr Cons.prems Cons.IH [of _ "acc @ [a]"] show ?thesis by fastforce
    qed
  qed
qed

lemma detect_outliers_same_list:
  "detect_outliers env sample st data = Inr (st', out) \<Longrightarrow> out = data"
  by (auto simp: detect_outliers_def split: sum.splits)

lemma clean_dataset_length:
  assumes "clean_dataset env sample st raw_data = Inr (st', cleaned)"
  shows "length cleaned \<le> length raw_data"
proof -
  obtain st1 d1 where 1: "remove_duplicates st raw_data = (st1, d1)" by fastforce
  obtain st2 d2 where 2: "fix_missing_values st1 d1 = (st2, d2)" by fastforce
  obtain st3 d3 where 3: "validate_coordinates env st2 d2 = (st3, d3)" by fastforce
  from assms 1 2 3 obtain st4 d4 where 4: "validate_datetime env st3 d3 = Inr (st4, d4)"
    by (auto simp: clean_dataset_def split: sum.splits)
  obtain st5 d5 where 5: "validate_trip_duration env st4 d4 = (st5, d5)" by fastforce
  from assms 1 2 3 4 5 obtain st6 where 6: "detect_outliers env sample st5 d5 = Inr (st6, cleaned)"
    by (auto simp: clean_dataset_def split: sum.splits)
  have "length d1 \<le> length raw_data"
    using remove_duplicates_loop_length [of st raw_data "{}" "[]"] 1
    by (simp add: remove_duplicates_def)
  moreover have "d2 = d1" using 2 by (simp add: fix_missing_values_def)
  moreover have "length d3 \<le> length d2"
    using validate_coordinates_loop_length [of env st2 d2 "[]"] 3
    by (simp add: validate_coordinates_def)
  moreover have "length d4 \<le> length d3"
    using validate_datetime_loop_length [of env st3 d3 "[]" st4 d4] 4
    by (simp add: validate_datetime_def)
  moreover have "length d5 \<le> length d4"
    using validate_trip_duration_loop_length [of env st4 d4 "[]"] 5
    by (simp add: validate_trip_duration_def)
  moreover have "cleaned = d5" using 6 by (rule detect_outliers_same_list)
  ultimately show ?thesis by simp
qed

subsection \<open>The feature engineering pipeline\<close>

lemma engineer_features_same_list: "snd (engineer_features env st data) = data"
  by (simp add: engineer_features_def calculate_trip_distance_def calculate_trip_speed_def
      extract_temporal_features_def calculate_efficiency_metrics_def classify_trip_zones_def
      detect_trip_patterns_def Let_def split: prod.splits)

subsection \<open>Running the cleaning pipeline on an example\<close>

lemmas plain_defs =
  plain_builtins_def plain_float_def plain_unsigned_def plain_int_def plain_nat_def digit_of_def
  plain_strptime_def days_from_civil_def day_name_def days_in_month_def
  plain_str_int_def plain_str_nat_def nat_digits.simps

lemma good_trip_key: "unique_key good_trip = ''2016-03-14 17:24:55|2016-03-14 17:32:30|-73.98|40.75|455''"
  by (simp add: unique_key_def good_trip_def get_default_def)

lemma far_trip_key: "unique_key far_trip = ''2016-03-14 17:24:55|2016-03-14 17:32:30|-73.98|12.5|455''"
  by (simp add: unique_key_def far_trip_def good_trip_def get_default_def)

lemma inverted_trip_key:
  "unique_key inverted_trip = ''2016-03-14 17:32:30|2016-03-14 17:24:55|-73.98|40.75|455''"
  by (simp add: unique_key_def inverted_trip_def good_trip_def get_default_def)

lemma long_trip_key: "unique_key long_trip = ''2016-03-14 17:24:55|2016-03-14 17:32:30|-73.98|40.75|5000''"
  by (simp add: unique_key_def long_trip_def good_trip_def get_default_def)

lemma five_trips_store:
  "store five_trips 0 = good_trip" "store five_trips (Suc 0) = good_trip"
  "store five_trips 2 = far_trip"
  "store five_trips 3 = inverted_trip" "store five_trips 4 = long_trip"
  by (simp_all add: five_trips_def)

lemma five_trips_dedup:
  "remove_duplicates five_trips [0, 1, 2, 3, 4] =
     (counters_update (duplicates_removed_update (\<lambda>n. n + 1)) five_trips, [0, 2, 3, 4])"
  by (simp add: remove_duplicates_def five_trips_store good_trip_key far_trip_key
      inverted_trip_key long_trip_key)

lemma good_trip_checks:
  "coordinates_valid plain_builtins good_trip = Some True"
  "datetime_check plain_builtins good_trip = Inr (Some 455)"
  "fix_record good_trip = (good_trip, False)"
  by (simp_all add: coordinates_valid_def datetime_check_def fix_record_def is_missing_def
      good_trip_def get_float_def plain_defs min_lat_def max_lat_def min_lon_def max_lon_def
      Let_def)

lemma far_trip_checks:
  "coordinates_valid plain_builtins far_trip = Some False"
  "fix_record far_trip = (far_trip, False)"
  by (simp_all add: coordinates_valid_def fix_record_def is_missing_def far_trip_def
      good_trip_def get_float_def plain_defs min_lat_def max_lat_def min_lon_def max_lon_def
      Let_def)

lemma inverted_trip_checks:
  "coordinates_valid plain_builtins inverted_trip = Some True"
  "datetime_check plain_builtins inverted_trip = Inr None"
  "fix_record inverted_trip = (inverted_trip, False)"
  by (simp_all add: coordinates_valid_def datetime_check_def fix_record_def is_missing_def
      inverted_trip_def good_trip_def get_float_def plain_defs min_lat_def max_lat_def
      min_lon_def max_lon_def Let_def)

lemma long_trip_checks:
  "coordinates_valid plain_builtins long_trip = Some True"
  "datetime_check plain_builtins long_trip = Inr (Some 455)"
  "fix_record long_trip = (long_trip, False)"
  "duration_valid plain_builtins (long_trip(''calculated_duration'' \<mapsto> d)) = Some False"
  by (simp_all add: coordinates_valid_def datetime_check_def fix_record_def is_missing_def
      duration_valid_def get_int_def min_duration_def max_duration_def max_passenger_def
      long_trip_def good_trip_def get_float_def plain_defs min_lat_def max_lat_def
      min_lon_def max_lon_def Let_def)

lemma good_trip_duration:
  "duration_valid plain_builtins (good_trip(''calculated_duration'' \<mapsto> d)) = Some True"
  "get_float plain_builtins (good_trip(''calculated_duration'' \<mapsto> d)) ''trip_duration'' 0
     = Some 455"
  by (simp_all add: duration_valid_def good_trip_def get_int_def get_float_def plain_defs
      min_duration_def max_duration_def max_passenger_def Let_def)

text \<open>The run of the whole pipeline on the five records: only the good trip survives; the
  duplicate carries no validity flag, the three rejected trips carry theirs.\<close>

lemma five_trips_clean:
  "\<exists>st'. clean_dataset plain_builtins sample_first five_trips [0, 1, 2, 3, 4] = Inr (st', [0])
         \<and> store st' 1 ''validity_flag'' = None
         \<and> store st' 2 ''validity_flag'' = Some ''INVALID_COORDINATES''
         \<and> store st' 3 ''validity_flag'' = Some ''INVALID_DATETIME''
         \<and> store st' 4 ''validity_flag'' = Some ''INVALID_DURATION_OR_PASSENGERS''"
proof -
  define st1 where "st1 = counters_update (duplicates_removed_update (\<lambda>n. n + 1)) five_trips"
  have s1: "store st1 0 = good_trip" "store st1 (Suc 0) = good_trip" "store st1 2 = far_trip"
    "store st1 3 = inverted_trip" "store st1 4 = long_trip"
    by (simp_all add: st1_def five_trips_store)
  define st2 where "st2 = fix_missing_values_loop st1 [0, 2, 3, 4]"
  have s2: "store st2 0 = good_trip" "store st2 (Suc 0) = good_trip" "store st2 2 = far_trip"
    "store st2 3 = inverted_trip" "store st2 4 = long_trip"
    by (simp_all add: st2_def s1 good_trip_checks far_trip_checks inverted_trip_checks
        long_trip_checks)
  define st3 where "st3 = store_update (set_field 2 ''validity_flag'' ''INVALID_COORDINATES'')
      (counters_update (coordinate_errors_update (\<lambda>n. n + 1)) st2)"
  have 3: "validate_coordinates plain_builtins st2 [0, 2, 3, 4] = (st3, [0, 3, 4])"
    by (simp add: st3_def validate_coordinates_def s2 good_trip_checks far_trip_checks
        inverted_trip_checks long_trip_checks set_field_def)
  have s3: "store st3 0 = good_trip" "store st3 (Suc 0) = good_trip"
    "store st3 2 = far_trip(''validity_flag'' \<mapsto> ''INVALID_COORDINATES'')"
    "store st3 3 = inverted_trip" "store st3 4 = long_trip"
    by (simp_all add: st3_def s2 set_field_def)
  define st4 where "st4 =
      store_update (set_field 4 ''calculated_duration'' (str_of_int plain_builtins 455))
       (store_update (set_field 3 ''validity_flag'' ''INVALID_DATETIME'')
        (counters_update (datetime_errors_update (\<lambda>n. n + 1))
         (store_update (set_field 0 ''calculated_duration'' (str_of_int plain_builtins 455)) st3)))"
  have 4: "validate_datetime plain_builtins st3 [0, 3, 4] = Inr (st4, [0, 4])"
    by (simp add: st4_def validate_datetime_def s3 good_trip_checks inverted_trip_checks
        long_trip_checks set_field_def)
  have s4: "store st4 0 = good_trip(''calculated_duration'' \<mapsto> str_of_int plain_builtins 455)"
    "store st4 (Suc 0) = good_trip"
    "store st4 2 = far_trip(''validity_flag'' \<mapsto> ''INVALID_COORDINATES'')"
    "store st4 3 = inverted_trip(''validity_flag'' \<mapsto> ''INVALID_DATETIME'')"
    "store st4 4 = long_trip(''calculated_duration'' \<mapsto> str_of_int plain_builtins 455)"
    by (simp_all add: st4_def s3 set_field_def)
  define st5 where "st5 =
      store_update (set_field 4 ''validity_flag'' ''INVALID_DURATION_OR_PASSENGERS'')
        (counters_update (duration_errors_update (\<lambda>n. n + 1)) st4)"
  have 5: "validate_trip_duration plain_builtins st4 [0, 4] = (st5, [0])"
    by (simp add: st5_def validate_trip_duration_def s4 good_trip_duration long_trip_checks)
  have s5: "store st5 0 = good_trip(''calculated_duration'' \<mapsto> str_of_int plain_builtins 455)"
    "store st5 (Suc 0) = good_trip"
    "store st5 2 = far_trip(''validity_flag'' \<mapsto> ''INVALID_COORDINATES'')"
    "store st5 3 = inverted_trip(''validity_flag'' \<mapsto> ''INVALID_DATETIME'')"
    "store st5 4 = (long_trip(''calculated_duration'' \<mapsto> str_of_int plain_builtins 455))
                     (''validity_flag'' \<mapsto> ''INVALID_DURATION_OR_PASSENGERS'')"
    by (simp_all add: st5_def s4 set_field_def)
  define st6 where "st6 = store_update (set_field 0 ''outlier_flag'' ''NORMAL'') st5"
  have 6: "detect_outliers plain_builtins sample_first st5 [0] = Inr (st6, [0])"
    by (simp add: st6_def detect_outliers_def outlier_index_set_def durations_of_def s5
        good_trip_duration detect_outliers_iqr_def enumerate_list_def)
  have s6: "store st6 (Suc 0) = good_trip"
    "store st6 2 = far_trip(''validity_flag'' \<mapsto> ''INVALID_COORDINATES'')"
    "store st6 3 = inverted_trip(''validity_flag'' \<mapsto> ''INVALID_DATETIME'')"
    "store st6 4 = (long_trip(''calculated_duration'' \<mapsto> str_of_int plain_builtins 455))
                     (''validity_flag'' \<mapsto> ''INVALID_DURATION_OR_PASSENGERS'')"
    by (simp_all add: st6_def s5 set_field_def)
  have 1: "remove_duplicates five_trips [0, 1, 2, 3, 4] = (st1, [0, 2, 3, 4])"
    by (simp only: five_trips_dedup st1_def)
  have 2: "fix_missing_values st1 [0, 2, 3, 4] = (st2, [0, 2, 3, 4])"
    by (simp only: fix_missing_values_def st2_def)
  have run: "clean_dataset plain_builtins sample_first five_trips [0, 1, 2, 3, 4]
      = Inr (write_cleaned_data st6 [0], [0])"
    by (simp only: clean_dataset_def Let_def 1 2 3 4 5 6 prod.case sum.case)
  have "store (write_cleaned_data st6 [0]) = store st6"
    by (simp add: write_cleaned_data_def)
  then have "store (write_cleaned_data st6 [0]) 1 ''validity_flag'' = None"
    "store (write_cleaned_data st6 [0]) 2 ''validity_flag'' = Some ''INVALID_COORDINATES''"
    "store (write_cleaned_data st6 [0]) 3 ''validity_flag'' = Some ''INVALID_DATETIME''"
    "store (write_cleaned_data st6 [0]) 4 ''validity_flag'' = Some ''INVALID_DURATION_OR_PASSENGERS''"
    by (simp_all add: s6 good_trip_def)
  with run show ?thesis by blast
qed

lemma remove_duplicates_loop_store:
  "store (fst (remove_duplicates_loop st data seen acc)) = store st"
  by (induction data arbitrary: st seen acc) simp_all

lemma remove_duplicates_loop_subset:
  "set (snd (remove_duplicates_loop st data seen acc)) \<subseteq> set acc \<union> set data"
proof (induction data arbitrary: st seen acc)
  case Nil
  then show ?case by simp
next
  case (Cons a data)
  show ?case
  proof (cases "unique_key (store st a) \<notin> seen")
    case True
    then show ?thesis
      using Cons [of st "insert (unique_key (store st a)) seen" "acc @ [a]"] by auto
  next
    case False
    then show ?thesis
      using Cons [of "counters_update (duplicates_removed_update (\<lambda>n. n + 1)) st" seen acc]
      by auto
  qed
qed

lemma fix_record_keeps_keys: "k \<in> dom record \<Longrightarrow> k \<in> dom (fst (fix_record record))"
  by (auto simp: fix_record_def Let_def split: if_splits)

lemma fix_missing_values_loop_keeps_keys:
  "k \<in> dom (store st a) \<Longrightarrow> k \<in> dom (store (fix_missing_values_loop st data) a)"
proof (induction data arbitrary: st)
  case Nil
  then show ?case by simp
next
  case (Cons b data)
  obtain r f where rf: "fix_record (store st b) = (r, f)" by fastforce
  have r: "k \<in> dom (store st b) \<Longrightarrow> k \<in> dom r"
    using fix_record_keeps_keys [of k "store st b"] rf by simp
  have "k \<in> dom (store (store_update (\<lambda>s. s(b := r)) st) a)"
    using Cons.prems r by auto
  then have "\<And>g. k \<in> dom (store (fix_missing_values_loop
      (counters_update g (store_update (\<lambda>s. s(b := r)) st)) data) a)"
    and "k \<in> dom (store (fix_missing_values_loop (store_update (\<lambda>s. s(b := r)) st) data) a)"
    by (simp_all add: Cons.IH)
  then show ?case by (simp add: rf Let_def)
qed

lemma validate_coordinates_loop_subset:
  "set (snd (validate_coordinates_loop env st data acc)) \<subseteq> set acc \<union> set data"
proof (induction data arbitrary: st acc)
  case Nil
  then show ?case by simp
next
  case (Cons a data)
  show ?case
  proof (cases "coordinates_valid env (store st a) = Some True")
    case True
    then show ?thesis using Cons [of st "acc @ [a]"] by auto
  next
    case False
    then show ?thesis
      using Cons [of "store_update (set_field a ''validity_flag'' ''INVALID_COORDINATES'')
               (counters_update (coordinate_errors_update (\<lambda>n. n + 1)) st)" acc]
      by auto
  qed
qed

lemma set_field_keeps_keys: "k \<in> dom (s a) \<Longrightarrow> k \<in> dom (set_field b k' v s a)"
  by (auto simp: set_field_def)

lemma validate_coordinates_loop_keeps_keys:
  "k \<in> dom (store st a) \<Longrightarrow>
   k \<in> dom (store (fst (validate_coordinates_loop env st data acc)) a)"
proof (induction data arbitrary: st acc)
  case Nil
  then show ?case by simp
next
  case (Cons b data)
  show ?case
  proof (cases "coordinates_valid env (store st b) = Some True")
    case True
    then show ?thesis using Cons by simp
  next
    case False
    have "k \<in> dom (store (store_update (set_field b ''validity_flag'' ''INVALID_COORDINATES'')
               (counters_update (coordinate_errors_update (\<lambda>n. n + 1)) st)) a)"
      using Cons.prems by (simp add: set_field_keeps_keys)
    then show ?thesis using False Cons.IH by simp
  qed
qed

lemma validate_datetime_loop_returns:
  "\<forall>a\<in>set data. ''pickup_datetime'' \<in> dom (store st a) \<and> ''dropoff_datetime'' \<in> dom (store st a)
   \<Longrightarrow> \<exists>st' out. validate_datetime_loop env st data acc = Inr (st', out)"
proof (induction data arbitrary: st acc)
  case Nil
  then show ?case by simp
next
  case (Cons a data)
  from Cons.prems obtain p d where pd: "store st a ''pickup_datetime'' = Some p"
    "store st a ''dropoff_datetime'' = Some d" by (auto simp: dom_def)
  then have "\<exists>r. datetime_check env (store st a) = Inr r"
    by (simp add: datetime_check_def split: option.splits)
  then obtain r where r: "datetime_check env (store st a) = Inr r" by blast
  have keep: "\<And>k v. \<forall>b\<in>set data.
      ''pickup_datetime'' \<in> dom (set_field a k v (store st) b)
      \<and> ''dropoff_datetime'' \<in> dom (set_field a k v (store st) b)"
    using Cons.prems by (simp add: set_field_keeps_keys)
  show ?case
  proof (cases r)
    case None
    have "\<exists>st' out. validate_datetime_loop env
            (store_update (set_field a ''validity_flag'' ''INVALID_DATETIME'')
              (counters_update (datetime_errors_update (\<lambda>n. n + 1)) st))
            data acc = Inr (st', out)"
      by (rule Cons.IH) (simp add: keep)
    then show ?thesis using r None by simp
  next
    case (Some x)
    have "\<exists>st' out. validate_datetime_loop env
            (store_update (set_field a ''calculated_duration'' (str_of_int env x)) st)
            data (acc @ [a]) = Inr (st', out)"
      by (rule Cons.IH) (simp add: keep)
    then show ?thesis using r Some by simp
  qed
qed

lemma detect_outliers_iqr_returns: "\<exists>idx stats. detect_outliers_iqr values m = Inr (idx, stats)"
proof (cases "length values < 4")
  case True
  then show ?thesis by (simp add: detect_outliers_iqr_short)
next
  case False
  then have "4 \<le> length values" by simp
  then show ?thesis by (simp add: detect_outliers_iqr_long Let_def)
qed

lemma outlier_index_set_returns:
  assumes "\<forall>population k. k \<le> length population \<longrightarrow> length (sample population k) = k"
  shows "\<exists>idx. outlier_index_set sample durations = Inr idx"
proof (cases "length durations > 100000")
  case True
  then have "min 50000 (length durations) = 50000" by simp
  with assms have "4 \<le> length (sample durations (min 50000 (length durations)))" by simp
  then show ?thesis
    using True
    by (simp add: outlier_index_set_def Let_def detect_outliers_iqr_long dict_get_def)
next
  case False
  then show ?thesis
    using detect_outliers_iqr_returns [of durations 2]
    by (auto simp: outlier_index_set_def)
qed

lemma clean_dataset_returns:
  assumes keys: "\<forall>a\<in>set raw_data. ''pickup_datetime'' \<in> dom (store st a)
                   \<and> ''dropoff_datetime'' \<in> dom (store st a)"
    and sample: "\<forall>population k. k \<le> length population \<longrightarrow> length (sample population k) = k"
  shows "\<exists>st' cleaned. clean_dataset env sample st raw_data = Inr (st', cleaned)"
proof -
  obtain st1 d1 where 1: "remove_duplicates st raw_data = (st1, d1)" by fastforce
  obtain st2 d2 where 2: "fix_missing_values st1 d1 = (st2, d2)" by fastforce
  obtain st3 d3 where 3: "validate_coordinates env st2 d2 = (st3, d3)" by fastforce
  have s1: "store st1 = store st"
    using remove_duplicates_loop_store [of st raw_data "{}" "[]"] 1
    by (simp add: remove_duplicates_def)
  have d1: "set d1 \<subseteq> set raw_data"
    using remove_duplicates_loop_subset [of st raw_data "{}" "[]"] 1
    by (simp add: remove_duplicates_def)
  have d2: "d2 = d1" and st2: "st2 = fix_missing_values_loop st1 d1"
    using 2 by (auto simp: fix_missing_values_def)
  have d3: "set d3 \<subseteq> set d2"
    using validate_coordinates_loop_subset [of env st2 d2 "[]"] 3
    by (simp add: validate_coordinates_def)
  have st3: "st3 = fst (validate_coordinates_loop env st2 d2 [])"
    using 3 by (simp add: validate_coordinates_def)
  have "\<forall>a\<in>set d3. ''pickup_datetime'' \<in> dom (store st3 a)
      \<and> ''dropoff_datetime'' \<in> dom (store st3 a)"
  proof
    fix a assume "a \<in> set d3"
    then have "a \<in> set raw_data" using d1 d2 d3 by auto
    then have "''pickup_datetime'' \<in> dom (store st1 a) \<and> ''dropoff_datetime'' \<in> dom (store st1 a)"
      using keys s1 by simp
    then have "''pickup_datetime'' \<in> dom (store st2 a) \<and> ''dropoff_datetime'' \<in> dom (store st2 a)"
      unfolding st2 by (simp add: fix_missing_values_loop_keeps_keys)
    then show "''pickup_datetime'' \<in> dom (store st3 a) \<and> ''dropoff_datetime'' \<in> dom (store st3 a)"
      unfolding st3 by (simp add: validate_coordinates_loop_keeps_keys)
  qed
  then obtain st4 d4 where 4: "validate_datetime env st3 d3 = Inr (st4, d4)"
    using validate_datetime_loop_returns [of d3 st3 env "[]"]
    by (auto simp: validate_datetime_def)
  obtain st5 d5 where 5: "validate_trip_duration env st4 d4 = (st5, d5)" by fastforce
  obtain idx where "outlier_index_set sample (durations_of env (store st5) d5) = Inr idx"
    using outlier_index_set_returns [OF sample] by blast
  then have 6: "detect_outliers env sample st5 d5
      = Inr (mark_outliers_loop st5 (enumerate_list d5) idx, d5)"
    by (simp add: detect_outliers_def)
  have "clean_dataset env sample st raw_data
      = Inr (write_cleaned_data (mark_outliers_loop st5 (enumerate_list d5) idx) d5, d5)"
    by (simp only: clean_dataset_def Let_def 1 2 3 4 5 6 prod.case sum.case)
  then show ?thesis by blast
qed

text \<open>
  Claim C1.  Whenever the cleaning pipeline returns, the cleaned list is no longer than the
  raw list.  It returns whenever every raw record carries the two datetime fields (a record
  without them makes \<^verbatim>\<open>_validate_datetime\<close> raise \<^verbatim>\<open>KeyError\<close>) and the draw of the sample has
  the size asked for.  Every stage of the feature engineering pipeline, and the pipeline as
  a whole, returns the very list it was given, so the record count is unchanged.
\<close>

theorem pipeline_record_counts:
  "(\<forall>st' cleaned. clean_dataset env sample st raw_data = Inr (st', cleaned)
        \<longrightarrow> length cleaned \<le> length raw_data)
   \<and> ((\<forall>a\<in>set raw_data. ''pickup_datetime'' \<in> dom (store st a)
                          \<and> ''dropoff_datetime'' \<in> dom (store st a))
        \<and> (\<forall>population k. k \<le> length population \<longrightarrow> length (sample population k) = k)
        \<longrightarrow> (\<exists>st' cleaned. clean_dataset env sample st raw_data = Inr (st', cleaned)))
   \<and> snd (calculate_trip_distance env fe data) = data
   \<and> snd (calculate_trip_speed env fe data) = data
   \<and> snd (extract_temporal_features env fe data) = data
   \<and> snd (calculate_efficiency_metrics env fe data) = data
   \<and> snd (classify_trip_zones env fe data) = data
   \<and> snd (detect_trip_patterns env fe data) = data
   \<and> snd (engineer_features env fe data) = data
   \<and> length (snd (engineer_features env fe data)) = length data"
proof (intro conjI allI impI)
  fix st' cleaned
  assume "clean_dataset env sample st raw_data = Inr (st', cleaned)"
  then show "length cleaned \<le> length raw_data" by (rule clean_dataset_length)
next
  assume "(\<forall>a\<in>set raw_data. ''pickup_datetime'' \<in> dom (store st a)
                          \<and> ''dropoff_datetime'' \<in> dom (store st a))
        \<and> (\<forall>population k. k \<le> length population \<longrightarrow> length (sample population k) = k)"
  then show "\<exists>st' cleaned. clean_dataset env sample st raw_data = Inr (st', cleaned)"
    using clean_dataset_returns [of raw_data st sample env] by blast
next
  show "snd (detect_trip_patterns env fe data) = data"
    by (simp add: detect_trip_patterns_def Let_def split: prod.splits)
qed (simp_all add: calculate_trip_distance_def calculate_trip_speed_def
    extract_temporal_features_def calculate_efficiency_metrics_def classify_trip_zones_def
    engineer_features_same_list)

theorem pipeline_record_counts_witness:
  "list_all (\<lambda>a. ''pickup_datetime'' \<in> dom (store five_trips a)
                 \<and> ''dropoff_datetime'' \<in> dom (store five_trips a)) [0, 1, 2, 3, 4]
   \<and> (\<exists>st'. clean_dataset plain_builtins sample_first five_trips [0, 1, 2, 3, 4] = Inr (st', [0]))
   \<and> length [0 :: nat] \<le> length [0, 1, 2, 3, 4 :: nat]
   \<and> length (snd (engineer_features plain_builtins
                    \<lparr>fe_store = store five_trips,
                     fe_counters = \<lparr>records_processed = 5, features_created = 0,
                                    distance_calculations = 0, time_features = 0,
                                    efficiency_metrics = 0\<rparr>\<rparr> [0, 1, 2, 3, 4])) = 5"
proof -
  let ?fe = "\<lparr>fe_store = store five_trips,
              fe_counters = \<lparr>records_processed = 5, features_created = 0,
                             distance_calculations = 0, time_features = 0,
                             efficiency_metrics = 0\<rparr>\<rparr>"
  note counts = pipeline_record_counts [of plain_builtins sample_first five_trips "[0, 1, 2, 3, 4]"
      ?fe "[0, 1, 2, 3, 4]"]
  have keys: "\<forall>a\<in>set [0, 1, 2, 3, 4]. ''pickup_datetime'' \<in> dom (store five_trips a)
      \<and> ''dropoff_datetime'' \<in> dom (store five_trips a)"
    by (simp add: five_trips_def good_trip_def far_trip_def inverted_trip_def long_trip_def)
  have draw: "\<forall>population k. k \<le> length population
      \<longrightarrow> length (sample_first population k) = k"
    by (simp add: sample_first_def)
  from counts keys draw obtain st' cleaned
    where run: "clean_dataset plain_builtins sample_first five_trips [0, 1, 2, 3, 4] = Inr (st', cleaned)"
    by blast
  from five_trips_clean obtain st''
    where out: "clean_dataset plain_builtins sample_first five_trips [0, 1, 2, 3, 4] = Inr (st'', [0])"
    by blast
  from counts out have le: "length [0 :: nat] \<le> length [0, 1, 2, 3, 4 :: nat]" by blast
  from counts have fe: "length (snd (engineer_features plain_builtins ?fe [0, 1, 2, 3, 4]))
      = length [0, 1, 2, 3, 4 :: nat]"
    by blast
  from keys have "list_all (\<lambda>a. ''pickup_datetime'' \<in> dom (store five_trips a)
                 \<and> ''dropoff_datetime'' \<in> dom (store five_trips a)) [0, 1, 2, 3, 4]"
    by (simp only: list_all_iff)
  with out le fe show ?thesis by simp
qed

subsection \<open>What the validators leave on the records\<close>

lemma get_float_other: "k \<noteq> k' \<Longrightarrow> get_float env (record(k' \<mapsto> v)) k d = get_float env record k d"
  by (simp add: get_float_def)

lemma get_int_other: "k \<noteq> k' \<Longrightarrow> get_int env (record(k' \<mapsto> v)) k d = get_int env record k d"
  by (simp add: get_int_def)

lemma coordinates_valid_flag [simp]:
  "coordinates_valid env (record(''validity_flag'' \<mapsto> v)) = coordinates_valid env record"
  by (simp add: coordinates_valid_def get_float_other cong: option.case_cong)

lemma duration_valid_flag [simp]:
  "duration_valid env (record(''validity_flag'' \<mapsto> v)) = duration_valid env record"
  by (simp add: duration_valid_def get_int_other cong: option.case_cong)

lemma datetime_check_flag [simp]:
  "datetime_check env (record(''validity_flag'' \<mapsto> v)) = datetime_check env record"
  "datetime_check env (record(''calculated_duration'' \<mapsto> v)) = datetime_check env record"
  by (simp_all add: datetime_check_def cong: option.case_cong)

text \<open>What \<^verbatim>\<open>_validate_coordinates\<close> leaves behind: the survivors in order, and in the store
  the flag on exactly the rejected records of the list.\<close>

lemma validate_coordinates_loop_result:
  "validate_coordinates_loop env st data acc = (st', out) \<Longrightarrow>
   out = acc @ filter (\<lambda>a. coordinates_valid env (store st a) = Some True) data
   \<and> store st' = (\<lambda>a. if a \<in> set data \<and> coordinates_valid env (store st a) \<noteq> Some True
                        then (store st a)(''validity_flag'' \<mapsto> ''INVALID_COORDINATES'')
                        else store st a)"
proof (induction data arbitrary: st acc)
  case Nil
  then show ?case by auto
next
  case (Cons b data)
  show ?case
  proof (cases "coordinates_valid env (store st b) = Some True")
    case True
    with Cons.prems have "validate_coordinates_loop env st data (acc @ [b]) = (st', out)"
      by simp
    from Cons.IH [OF this] True show ?thesis by (auto simp: fun_eq_iff)
  next
    case False
    let ?st = "store_update (set_field b ''validity_flag'' ''INVALID_COORDINATES'')
               (counters_update (coordinate_errors_update (\<lambda>n. n + 1)) st)"
    have same: "\<And>a. coordinates_valid env (store ?st a) = coordinates_valid env (store st a)"
      by (simp add: set_field_def)
    from False Cons.prems have "validate_coordinates_loop env ?st data acc = (st', out)"
      by simp
    from Cons.IH [OF this] have
      out: "out = acc @ filter (\<lambda>a. coordinates_valid env (store st a) = Some True) data"
      and st': "store st' = (\<lambda>a. if a \<in> set data \<and> coordinates_valid env (store st a) \<noteq> Some True
                        then (store ?st a)(''validity_flag'' \<mapsto> ''INVALID_COORDINATES'')
                        else store ?st a)"
      by (simp_all only: same)
    from out False have 1: "out = acc @ filter (\<lambda>a. coordinates_valid env (store st a) = Some True) (b # data)"
      by simp
    have 2: "store st' = (\<lambda>a. if a \<in> set (b # data) \<and> coordinates_valid env (store st a) \<noteq> Some True
                        then (store st a)(''validity_flag'' \<mapsto> ''INVALID_COORDINATES'')
                        else store st a)"
      unfolding st' using False by (auto simp: fun_eq_iff set_field_def)
    from 1 2 show ?thesis by blast
  qed
qed

lemma validate_trip_duration_loop_result:
  "validate_trip_duration_loop env st data acc = (st', out) \<Longrightarrow>
   out = acc @ filter (\<lambda>a. duration_valid env (store st a) = Some True) data
   \<and> store st' = (\<lambda>a. if a \<in> set data \<and> duration_valid env (store st a) \<noteq> Some True
                        then (store st a)(''validity_flag'' \<mapsto> ''INVALID_DURATION_OR_PASSENGERS'')
                        else store st a)"
proof (induction data arbitrary: st acc)
  case Nil
  then show ?case by auto
next
  case (Cons b data)
  show ?case
  proof (cases "duration_valid env (store st b) = Some True")
    case True
    with Cons.prems have "validate_trip_duration_loop env st data (acc @ [b]) = (st', out)"
      by simp
    from Cons.IH [OF this] True show ?thesis by (auto simp: fun_eq_iff)
  next
    case False
    let ?st = "store_update (set_field b ''validity_flag'' ''INVALID_DURATION_OR_PASSENGERS'')
               (counters_update (duration_errors_update (\<lambda>n. n + 1)) st)"
    have same: "\<And>a. duration_valid env (store ?st a) = duration_valid env (store st a)"
      by (simp add: set_field_def)
    from False Cons.prems have "validate_trip_duration_loop env ?st data acc = (st', out)"
      by simp
    from Cons.IH [OF this] have
      out: "out = acc @ filter (\<lambda>a. duration_valid env (store st a) = Some True) data"
      and st': "store st' = (\<lambda>a. if a \<in> set data \<and> duration_valid env (store st a) \<noteq> Some True
                        then (store ?st a)(''validity_flag'' \<mapsto> ''INVALID_DURATION_OR_PASSENGERS'')
                        else store ?st a)"
      by (simp_all only: same)
    from out False have 1: "out = acc @ filter (\<lambda>a. duration_valid env (store st a) = Some True) (b # data)"
      by simp
    have 2: "store st' = (\<lambda>a. if a \<in> set (b # data) \<and> duration_valid env (store st a) \<noteq> Some True
                        then (store st a)(''validity_flag'' \<mapsto> ''INVALID_DURATION_OR_PASSENGERS'')
                        else store st a)"
      unfolding st' using False by (auto simp: fun_eq_iff set_field_def)
    from 1 2 show ?thesis by blast
  qed
qed

lemma validate_datetime_loop_result:
  "validate_datetime_loop env st data acc = Inr (st', out) \<Longrightarrow>
   out = acc @ filter (\<lambda>a. \<exists>d. datetime_check env (store st a) = Inr (Some d)) data
   \<and> store st' =
       (\<lambda>a. if a \<in> set data
            then (case datetime_check env (store st a) of
                    Inr (Some d) \<Rightarrow> (store st a)(''calculated_duration'' \<mapsto> str_of_int env d)
                  | other \<Rightarrow> (store st a)(''validity_flag'' \<mapsto> ''INVALID_DATETIME''))
            else store st a)"
proof (induction data arbitrary: st acc)
  case Nil
  then show ?case by auto
next
  case (Cons b data)
  show ?case
  proof (cases "datetime_check env (store st b)")
    case (Inl e)
    with Cons.prems show ?thesis by simp
  next
    case (Inr r)
    show ?thesis
    proof (cases r)
      case None
      let ?st = "store_update (set_field b ''validity_flag'' ''INVALID_DATETIME'')
              (counters_update (datetime_errors_update (\<lambda>n. n + 1)) st)"
      have same: "\<And>a. datetime_check env (store ?st a) = datetime_check env (store st a)"
        by (simp add: set_field_def)
      from None Inr Cons.prems have "validate_datetime_loop env ?st data acc = Inr (st', out)"
        by simp
      from Cons.IH [OF this] have
        out: "out = acc @ filter (\<lambda>a. \<exists>d. datetime_check env (store st a) = Inr (Some d)) data"
        and st': "store st' =
         (\<lambda>a. if a \<in> set data
            then (case datetime_check env (store st a) of
                    Inr (Some d) \<Rightarrow> (store ?st a)(''calculated_duration'' \<mapsto> str_of_int env d)
                  | other \<Rightarrow> (store ?st a)(''validity_flag'' \<mapsto> ''INVALID_DATETIME''))
            else store ?st a)"
        by (simp_all only: same)
      from out None Inr have 1:
        "out = acc @ filter (\<lambda>a. \<exists>d. datetime_check env (store st a) = Inr (Some d)) (b # data)"
        by simp
      have 2: "store st' =
         (\<lambda>a. if a \<in> set (b # data)
            then (case datetime_check env (store st a) of
                    Inr (Some d) \<Rightarrow> (store st a)(''calculated_duration'' \<mapsto> str_of_int env d)
                  | other \<Rightarrow> (store st a)(''validity_flag'' \<mapsto> ''INVALID_DATETIME''))
            else store st a)"
        unfolding st' using None Inr
        by (auto simp: fun_eq_iff set_field_def split: sum.splits option.splits)
      from 1 2 show ?thesis by blast
    next
      case (Some d)
      let ?st = "store_update (set_field b ''calculated_duration'' (str_of_int env d)) st"
      have same: "\<And>a. datetime_check env (store ?st a) = datetime_check env (store st a)"
        by (simp add: set_field_def)
      from Some Inr Cons.prems have "validate_datetime_loop env ?st data (acc @ [b]) = Inr (st', out)"
        by simp
      from Cons.IH [OF this] have
        out: "out = (acc @ [b]) @ filter (\<lambda>a. \<exists>d. datetime_check env (store st a) = Inr (Some d)) data"
        and st': "store st' =
         (\<lambda>a. if a \<in> set data
            then (case datetime_check env (store st a) of
                    Inr (Some d) \<Rightarrow> (store ?st a)(''calculated_duration'' \<mapsto> str_of_int env d)
                  | other \<Rightarrow> (store ?st a)(''validity_flag'' \<mapsto> ''INVALID_DATETIME''))
            else store ?st a)"
        by (simp_all only: same)
      from out Some Inr have 1:
        "out = acc @ filter (\<lambda>a. \<exists>d. datetime_check env (store st a) = Inr (Some d)) (b # data)"
        by simp
      have 2: "store st' =
         (\<lambda>a. if a \<in> set (b # data)
            then (case datetime_check env (store st a) of
                    Inr (Some d) \<Rightarrow> (store st a)(''calculated_duration'' \<mapsto> str_of_int env d)
                  | other \<Rightarrow> (store st a)(''validity_flag'' \<mapsto> ''INVALID_DATETIME''))
            else store st a)"
        unfolding st' using Some Inr
        by (auto simp: fun_eq_iff set_field_def split: sum.splits option.splits)
      from 1 2 show ?thesis by blast
    qed
  qed
qed

lemma remove_duplicates_loop_counter:
  "duplicates_removed (counters (fst (remove_duplicates_loop st data seen acc)))
     + int (length (snd (remove_duplicates_loop st data seen acc)))
   = duplicates_removed (counters st) + int (length acc) + int (length data)"
proof (induction data arbitrary: st seen acc)
  case Nil
  then show ?case by simp
next
  case (Cons a data)
  show ?case
  proof (cases "unique_key (store st a) \<notin> seen")
    case True
    then show ?thesis
      using Cons [of st "insert (unique_key (store st a)) seen" "acc @ [a]"] by simp
  next
    case False
    then show ?thesis
      using Cons [of "counters_update (duplicates_removed_update (\<lambda>n. n + 1)) st" seen acc]
      by simp
  qed
qed

text \<open>
  Claim C7, as the code has it.  A record rejected by one of the three validators (bad
  coordinates, bad datetime ordering, out-of-range duration or passengers) has the
  corresponding validity flag written on it in the store when the stage returns the working
  list without it, and the stage goes on past each rejection: the returned list holds
  exactly the valid records of the input, in order.  The duplicate stage is different by
  design: it writes on no record at all, a discarded duplicate is only counted in
  \<^verbatim>\<open>duplicates_removed\<close>.
\<close>

theorem rejected_records_flagged_duplicates_counted:
  "(\<forall>a\<in>set data. a \<notin> set (snd (validate_coordinates env st data)) \<longrightarrow>
        store (fst (validate_coordinates env st data)) a ''validity_flag''
          = Some ''INVALID_COORDINATES'')
   \<and> snd (validate_coordinates env st data)
       = filter (\<lambda>a. coordinates_valid env (store st a) = Some True) data
   \<and> (\<forall>st' out. validate_datetime env st data = Inr (st', out) \<longrightarrow>
          (\<forall>a\<in>set data. a \<notin> set out \<longrightarrow>
              store st' a ''validity_flag'' = Some ''INVALID_DATETIME'')
          \<and> out = filter (\<lambda>a. \<exists>d. datetime_check env (store st a) = Inr (Some d)) data)
   \<and> (\<forall>a\<in>set data. a \<notin> set (snd (validate_trip_duration env st data)) \<longrightarrow>
          store (fst (validate_trip_duration env st data)) a ''validity_flag''
            = Some ''INVALID_DURATION_OR_PASSENGERS'')
   \<and> snd (validate_trip_duration env st data)
       = filter (\<lambda>a. duration_valid env (store st a) = Some True) data
   \<and> store (fst (remove_duplicates st data)) = store st
   \<and> duplicates_removed (counters (fst (remove_duplicates st data)))
       = duplicates_removed (counters st)
         + (int (length data) - int (length (snd (remove_duplicates st data))))"
proof -
  obtain stc outc where c: "validate_coordinates_loop env st data [] = (stc, outc)" by fastforce
  note rc = validate_coordinates_loop_result [OF c]
  obtain std outd where d: "validate_trip_duration_loop env st data [] = (std, outd)" by fastforce
  note rd = validate_trip_duration_loop_result [OF d]
  have 1: "\<forall>a\<in>set data. a \<notin> set (snd (validate_coordinates env st data)) \<longrightarrow>
        store (fst (validate_coordinates env st data)) a ''validity_flag''
          = Some ''INVALID_COORDINATES''"
    using rc by (auto simp: validate_coordinates_def c)
  have 2: "snd (validate_coordinates env st data)
       = filter (\<lambda>a. coordinates_valid env (store st a) = Some True) data"
    using rc by (simp add: validate_coordinates_def c)
  have 3: "\<forall>st' out. validate_datetime env st data = Inr (st', out) \<longrightarrow>
          (\<forall>a\<in>set data. a \<notin> set out \<longrightarrow>
              store st' a ''validity_flag'' = Some ''INVALID_DATETIME'')
          \<and> out = filter (\<lambda>a. \<exists>d. datetime_check env (store st a) = Inr (Some d)) data"
  proof (intro allI impI)
    fix st' out
    assume "validate_datetime env st data = Inr (st', out)"
    then have "validate_datetime_loop env st data [] = Inr (st', out)"
      by (simp add: validate_datetime_def)
    note r = validate_datetime_loop_result [OF this]
    then show "(\<forall>a\<in>set data. a \<notin> set out \<longrightarrow>
              store st' a ''validity_flag'' = Some ''INVALID_DATETIME'')
          \<and> out = filter (\<lambda>a. \<exists>d. datetime_check env (store st a) = Inr (Some d)) data"
      by (auto split: sum.splits option.splits)
  qed
  have 4: "\<forall>a\<in>set data. a \<notin> set (snd (validate_trip_duration env st data)) \<longrightarrow>
          store (fst (validate_trip_duration env st data)) a ''validity_flag''
            = Some ''INVALID_DURATION_OR_PASSENGERS''"
    using rd by (auto simp: validate_trip_duration_def d)
  have 5: "snd (validate_trip_duration env st data)
       = filter (\<lambda>a. duration_valid env (store st a) = Some True) data"
    using rd by (simp add: validate_trip_duration_def d)
  have 6: "store (fst (remove_duplicates st data)) = store st"
    by (simp add: remove_duplicates_def remove_duplicates_loop_store)
  have 7: "duplicates_removed (counters (fst (remove_duplicates st data)))
       = duplicates_removed (counters st)
         + (int (length data) - int (length (snd (remove_duplicates st data))))"
    using remove_duplicates_loop_counter [of st data "{}" "[]"]
    by (simp add: remove_duplicates_def)
  from 1 2 3 4 5 6 7 show ?thesis by blast
qed

lemma raw_trip_checks:
  "datetime_check plain_builtins far_trip = Inr (Some 455)"
  "duration_valid plain_builtins good_trip = Some True"
  "duration_valid plain_builtins far_trip = Some True"
  "duration_valid plain_builtins inverted_trip = Some True"
  "duration_valid plain_builtins long_trip = Some False"
  by (simp_all add: datetime_check_def duration_valid_def get_int_def min_duration_def
      max_duration_def max_passenger_def far_trip_def inverted_trip_def long_trip_def
      good_trip_def plain_defs Let_def)

text \<open>Claim C7 as stated fails on duplicates: of the five example records the second is an
  exact duplicate of the first; \<^verbatim>\<open>_remove_duplicates\<close> drops it from the working list and
  counts it, and no validity flag is on the record.\<close>

theorem duplicate_removed_without_flag:
  "snd (remove_duplicates five_trips [0, 1, 2, 3, 4]) = [0, 2, 3, 4]
   \<and> store (fst (remove_duplicates five_trips [0, 1, 2, 3, 4])) 1 ''validity_flag'' = None
   \<and> duplicates_removed (counters (fst (remove_duplicates five_trips [0, 1, 2, 3, 4]))) = 1"
proof -
  have "store five_trips 1 ''validity_flag'' = None"
    by (simp add: five_trips_store good_trip_def)
  moreover have "duplicates_removed (counters five_trips) = 0"
    by (simp add: five_trips_def no_stats_def)
  ultimately show ?thesis
    unfolding five_trips_dedup by simp
qed

text \<open>The stages on the five example records: each validator drops its bad record with
  the flag written and keeps the others.\<close>

theorem rejected_records_flagged_duplicates_counted_witness:
  "snd (validate_coordinates plain_builtins five_trips [0, 1, 2, 3, 4]) = [0, 1, 3, 4]
   \<and> store (fst (validate_coordinates plain_builtins five_trips [0, 1, 2, 3, 4])) 2
         ''validity_flag'' = Some ''INVALID_COORDINATES''
   \<and> (\<exists>st'. validate_datetime plain_builtins five_trips [0, 1, 2, 3, 4] = Inr (st', [0, 1, 2, 4])
            \<and> store st' 3 ''validity_flag'' = Some ''INVALID_DATETIME'')
   \<and> snd (validate_trip_duration plain_builtins five_trips [0, 1, 2, 3, 4]) = [0, 1, 2, 3]
   \<and> store (fst (validate_trip_duration plain_builtins five_trips [0, 1, 2, 3, 4])) 4
         ''validity_flag'' = Some ''INVALID_DURATION_OR_PASSENGERS''
   \<and> store (fst (remove_duplicates five_trips [0, 1, 2, 3, 4])) = store five_trips
   \<and> duplicates_removed (counters (fst (remove_duplicates five_trips [0, 1, 2, 3, 4])))
       = 0 + (5 - 4)"
proof -
  note T = rejected_records_flagged_duplicates_counted
    [of "[0, 1, 2, 3, 4]" plain_builtins five_trips]
  note T1 = T [THEN conjunct1]
  note T2 = T [THEN conjunct2, THEN conjunct1]
  note T3 = T [THEN conjunct2, THEN conjunct2, THEN conjunct1]
  note T4 = T [THEN conjunct2, THEN conjunct2, THEN conjunct2, THEN conjunct1]
  note T5 = T [THEN conjunct2, THEN conjunct2, THEN conjunct2, THEN conjunct2, THEN conjunct1]
  note T6 = T [THEN conjunct2, THEN conjunct2, THEN conjunct2, THEN conjunct2, THEN conjunct2,
      THEN conjunct1]
  note T7 = T [THEN conjunct2, THEN conjunct2, THEN conjunct2, THEN conjunct2, THEN conjunct2,
      THEN conjunct2]
  have c: "snd (validate_coordinates plain_builtins five_trips [0, 1, 2, 3, 4]) = [0, 1, 3, 4]"
    unfolding T2
    by (simp add: five_trips_store good_trip_checks far_trip_checks inverted_trip_checks
        long_trip_checks)
  have "(2::nat) \<in> set [0, 1, 2, 3, 4]" "(2::nat) \<notin> set [0, 1, 3, 4]" by simp_all
  with T1 c have cf: "store (fst (validate_coordinates plain_builtins five_trips [0, 1, 2, 3, 4])) 2
         ''validity_flag'' = Some ''INVALID_COORDINATES''"
    by metis
  have "\<forall>a\<in>set [0, 1, 2, 3, 4]. ''pickup_datetime'' \<in> dom (store five_trips a)
      \<and> ''dropoff_datetime'' \<in> dom (store five_trips a)"
    by (simp add: five_trips_def good_trip_def far_trip_def inverted_trip_def long_trip_def)
  from validate_datetime_loop_returns [OF this, of plain_builtins "[]"]
  obtain st' out where run: "validate_datetime plain_builtins five_trips [0, 1, 2, 3, 4] = Inr (st', out)"
    by (auto simp: validate_datetime_def)
  from T3 run have flag: "\<forall>a\<in>set [0, 1, 2, 3, 4]. a \<notin> set out \<longrightarrow>
        store st' a ''validity_flag'' = Some ''INVALID_DATETIME''"
    and out: "out = filter (\<lambda>a. \<exists>d. datetime_check plain_builtins (store five_trips a) = Inr (Some d))
        [0, 1, 2, 3, 4]"
    by blast+
  have out': "out = [0, 1, 2, 4]"
    unfolding out
    by (simp add: five_trips_store good_trip_checks raw_trip_checks inverted_trip_checks
        long_trip_checks)
  have "(3::nat) \<in> set [0, 1, 2, 3, 4]" "(3::nat) \<notin> set [0, 1, 2, 4]" by simp_all
  with flag out' have df: "store st' 3 ''validity_flag'' = Some ''INVALID_DATETIME''" by metis
  have d: "snd (validate_trip_duration plain_builtins five_trips [0, 1, 2, 3, 4]) = [0, 1, 2, 3]"
    unfolding T5 by (simp add: five_trips_store raw_trip_checks)
  have "(4::nat) \<in> set [0, 1, 2, 3, 4]" "(4::nat) \<notin> set [0, 1, 2, 3]" by simp_all
  with T4 d have tf: "store (fst (validate_trip_duration plain_builtins five_trips [0, 1, 2, 3, 4])) 4
         ''validity_flag'' = Some ''INVALID_DURATION_OR_PASSENGERS''"
    by metis
  have "snd (remove_duplicates five_trips [0, 1, 2, 3, 4]) = [0, 2, 3, 4]"
    unfolding five_trips_dedup by simp
  moreover have "duplicates_removed (counters five_trips) = 0"
    by (simp add: five_trips_def no_stats_def)
  ultimately have dup: "duplicates_removed (counters (fst (remove_duplicates five_trips [0, 1, 2, 3, 4])))
       = 0 + (5 - 4)"
    using T7 by simp
  from c cf run out' df d tf T6 dup show ?thesis by blast
qed

subsection \<open>The missing-value stage\<close>

lemma fix_record_fields:
  "fst (fix_record record) k =
     (if is_missing record k \<and> (k = ''passenger_count'' \<or> k = ''vendor_id'') then Some ''1''
      else if is_missing record k \<and> k = ''store_and_fwd_flag'' then Some ''N''
      else record k)"
  by (auto simp: fix_record_def Let_def is_missing_def)

lemma fix_record_fixed: "snd (fix_record record) = needs_fix record"
  by (auto simp: fix_record_def Let_def needs_fix_def is_missing_def)

lemma is_missing_fixed:
  "is_missing (fst (fix_record record)) k \<longleftrightarrow>
     is_missing record k \<and> k \<noteq> ''passenger_count'' \<and> k \<noteq> ''vendor_id''
       \<and> k \<noteq> ''store_and_fwd_flag''"
  unfolding is_missing_def [of "fst (fix_record record)"] fix_record_fields
  by (auto simp: is_missing_def)

lemma fix_record_idem: "fst (fix_record (fst (fix_record record))) = fst (fix_record record)"
  by (rule ext) (auto simp: fix_record_fields is_missing_fixed)

lemma needs_fix_fixed: "\<not> needs_fix (fst (fix_record record))"
  by (simp add: needs_fix_def is_missing_fixed)

definition fix_step :: "cleaner \<Rightarrow> addr \<Rightarrow> cleaner" where
  "fix_step st a =
     (if needs_fix (store st a)
      then counters_update (missing_values_fixed_update (\<lambda>n. n + 1))
             (store_update (\<lambda>s. s(a := fst (fix_record (store st a)))) st)
      else store_update (\<lambda>s. s(a := fst (fix_record (store st a)))) st)"

lemma fix_missing_values_loop_step:
  "fix_missing_values_loop st (a # rest) = fix_missing_values_loop (fix_step st a) rest"
proof -
  obtain r f where rf: "fix_record (store st a) = (r, f)" by fastforce
  then have f: "f = needs_fix (store st a)" using fix_record_fixed [of "store st a"] by simp
  show ?thesis
    by (cases f) (simp_all add: rf f [symmetric] fix_step_def)
qed

lemma fix_step_store:
  "store (fix_step st a) b = (if b = a then fst (fix_record (store st a)) else store st b)"
  by (simp add: fix_step_def)

lemma fix_step_counter:
  "missing_values_fixed (counters (fix_step st a)) =
     missing_values_fixed (counters st) + (if needs_fix (store st a) then 1 else 0)"
  by (simp add: fix_step_def)

lemma fix_missing_values_loop_result:
  "store (fix_missing_values_loop st data) =
     (\<lambda>a. if a \<in> set data then fst (fix_record (store st a)) else store st a)
   \<and> missing_values_fixed (counters (fix_missing_values_loop st data)) =
       missing_values_fixed (counters st)
       + int (card {a \<in> set data. needs_fix (store st a)})"
proof (induction data arbitrary: st)
  case Nil
  show ?case by simp
next
  case (Cons a rest)
  have 1: "store (fix_missing_values_loop st (a # rest)) =
     (\<lambda>b. if b \<in> set (a # rest) then fst (fix_record (store st b)) else store st b)"
    unfolding fix_missing_values_loop_step Cons.IH [of "fix_step st a", THEN conjunct1]
    by (auto simp: fun_eq_iff fix_record_idem fix_step_store)
  have sets: "{b \<in> set (a # rest). needs_fix (store st b)}
      = (if needs_fix (store st a) then {a} else {})
        \<union> {b \<in> set rest. needs_fix (store (fix_step st a) b)}"
    by (auto simp: needs_fix_fixed fix_step_store)
  have "a \<notin> {b \<in> set rest. needs_fix (store (fix_step st a) b)}"
    by (simp add: needs_fix_fixed fix_step_store)
  then have card: "card {b \<in> set (a # rest). needs_fix (store st b)}
      = (if needs_fix (store st a) then 1 else 0)
        + card {b \<in> set rest. needs_fix (store (fix_step st a) b)}"
    unfolding sets by simp
  have 2: "missing_values_fixed (counters (fix_missing_values_loop st (a # rest))) =
       missing_values_fixed (counters st)
       + int (card {b \<in> set (a # rest). needs_fix (store st b)})"
    unfolding fix_missing_values_loop_step Cons.IH [of "fix_step st a", THEN conjunct2] card
      fix_step_counter
    by simp
  from 1 2 show ?case by blast
qed

text \<open>
  Claim C8, as the code has it.  \<^verbatim>\<open>_fix_missing_values\<close> returns the list it was given.  On
  every record of the list an absent or empty passenger count or vendor id becomes \<^verbatim>\<open>'1'\<close>,
  an absent or empty store-and-forward flag becomes \<^verbatim>\<open>'N'\<close>, and every other field is left
  as it was.  The counter \<^verbatim>\<open>missing_values_fixed\<close> advances by the number of records on which
  at least one default was substituted: the loop sets a flag per record and counts the
  record once, however many of its fields were defaulted.
\<close>

theorem fix_missing_values_defaults_and_count:
  "snd (fix_missing_values st data) = data
   \<and> (\<forall>a\<in>set data. \<forall>k.
         store (fst (fix_missing_values st data)) a k =
           (if is_missing (store st a) k \<and> (k = ''passenger_count'' \<or> k = ''vendor_id'')
            then Some ''1''
            else if is_missing (store st a) k \<and> k = ''store_and_fwd_flag'' then Some ''N''
            else store st a k))
   \<and> missing_values_fixed (counters (fst (fix_missing_values st data))) =
       missing_values_fixed (counters st)
       + int (card {a \<in> set data. is_missing (store st a) ''passenger_count''
                                  \<or> is_missing (store st a) ''store_and_fwd_flag''
                                  \<or> is_missing (store st a) ''vendor_id''})"
  using fix_missing_values_loop_result [of st data]
  by (simp add: fix_missing_values_def fix_record_fields needs_fix_def)

lemma is_missing_other: "k \<noteq> k' \<Longrightarrow> is_missing (record(k' \<mapsto> v)) k = is_missing record k"
  by (simp add: is_missing_def)

lemma bare_trip_missing:
  "is_missing bare_trip ''vendor_id''" "is_missing bare_trip ''store_and_fwd_flag''"
  "\<not> is_missing bare_trip ''passenger_count''"
  by (simp_all add: is_missing_def bare_trip_def)

text \<open>Claim C8 as stated fails on the counter: the record below lacks two fields, both are
  defaulted, and the counter advances by one, not by two.\<close>

theorem two_defaults_counted_once:
  "store one_bare_trip 0 ''vendor_id'' = None
   \<and> store one_bare_trip 0 ''store_and_fwd_flag'' = None
   \<and> store (fst (fix_missing_values one_bare_trip [0])) 0 ''vendor_id'' = Some ''1''
   \<and> store (fst (fix_missing_values one_bare_trip [0])) 0 ''store_and_fwd_flag'' = Some ''N''
   \<and> missing_values_fixed (counters one_bare_trip) = 0
   \<and> missing_values_fixed (counters (fst (fix_missing_values one_bare_trip [0]))) = 1"
proof -
  have s: "store one_bare_trip 0 = bare_trip" by (simp add: one_bare_trip_def)
  have z: "missing_values_fixed (counters one_bare_trip) = 0"
    by (simp add: one_bare_trip_def no_stats_def)
  have r: "fix_record bare_trip
      = (bare_trip(''store_and_fwd_flag'' \<mapsto> ''N'', ''vendor_id'' \<mapsto> ''1''), True)"
    by (simp add: fix_record_def Let_def bare_trip_missing is_missing_other)
  have n: "bare_trip ''vendor_id'' = None" "bare_trip ''store_and_fwd_flag'' = None"
    by (simp_all add: bare_trip_def)
  show ?thesis by (simp add: fix_missing_values_def s z r n)
qed

theorem fix_missing_values_defaults_and_count_witness:
  "snd (fix_missing_values one_bare_trip [0]) = [0]
   \<and> store (fst (fix_missing_values one_bare_trip [0])) 0 ''vendor_id'' = Some ''1''
   \<and> store (fst (fix_missing_values one_bare_trip [0])) 0 ''store_and_fwd_flag'' = Some ''N''
   \<and> store (fst (fix_missing_values one_bare_trip [0])) 0 ''passenger_count'' = Some ''1''
   \<and> store (fst (fix_missing_values one_bare_trip [0])) 0 ''trip_duration'' = Some ''455''
   \<and> missing_values_fixed (counters (fst (fix_missing_values one_bare_trip [0]))) = 0 + 1"
proof -
  note T = fix_missing_values_defaults_and_count [of one_bare_trip "[0]"]
  have s: "store one_bare_trip 0 = bare_trip" by (simp add: one_bare_trip_def)
  have c: "{a \<in> set [0]. is_missing (store one_bare_trip a) ''passenger_count''
                                  \<or> is_missing (store one_bare_trip a) ''store_and_fwd_flag''
                                  \<or> is_missing (store one_bare_trip a) ''vendor_id''} = {0}"
    by (auto simp: s bare_trip_missing)
  have z: "missing_values_fixed (counters one_bare_trip) = 0"
    by (simp add: one_bare_trip_def no_stats_def)
  have f: "\<And>k. store (fst (fix_missing_values one_bare_trip [0])) 0 k =
           (if is_missing bare_trip k \<and> (k = ''passenger_count'' \<or> k = ''vendor_id'')
            then Some ''1''
            else if is_missing bare_trip k \<and> k = ''store_and_fwd_flag'' then Some ''N''
            else bare_trip k)"
  proof -
    fix k
    have "(0::nat) \<in> set [0]" by simp
    from T [THEN conjunct2, THEN conjunct1, rule_format, OF this, of k]
    show "store (fst (fix_missing_values one_bare_trip [0])) 0 k =
           (if is_missing bare_trip k \<and> (k = ''passenger_count'' \<or> k = ''vendor_id'')
            then Some ''1''
            else if is_missing bare_trip k \<and> k = ''store_and_fwd_flag'' then Some ''N''
            else bare_trip k)"
      unfolding s .
  qed
  have "missing_values_fixed (counters (fst (fix_missing_values one_bare_trip [0]))) = 0 + 1"
    using T [THEN conjunct2, THEN conjunct2] unfolding c z by simp
  moreover have "snd (fix_missing_values one_bare_trip [0]) = [0]"
    using T [THEN conjunct1] .
  moreover have "store (fst (fix_missing_values one_bare_trip [0])) 0 ''vendor_id'' = Some ''1''"
    "store (fst (fix_missing_values one_bare_trip [0])) 0 ''store_and_fwd_flag'' = Some ''N''"
    by (simp_all add: f bare_trip_missing)
  moreover have "store (fst (fix_missing_values one_bare_trip [0])) 0 ''passenger_count'' = Some ''1''"
    "store (fst (fix_missing_values one_bare_trip [0])) 0 ''trip_duration'' = Some ''455''"
    by (simp_all add: f bare_trip_missing) (simp_all add: bare_trip_def is_missing_def)
  ultimately show ?thesis by blast
qed

subsection \<open>The efficiency step\<close>

lemma for_each_record_store:
  assumes idem: "\<And>r. fst (body (fst (body r))) = fst (body r)"
  shows "fe_store (for_each_record body st data) =
     (\<lambda>a. if a \<in> set data then fst (body (fe_store st a)) else fe_store st a)"
proof (induction data arbitrary: st)
  case Nil
  show ?case by simp
next
  case (Cons a rest)
  obtain r g where rg: "body (fe_store st a) = (r, g)" by fastforce
  then have r: "r = fst (body (fe_store st a))" by simp
  show ?case
    by (simp add: rg Cons.IH) (auto simp: fun_eq_iff r idem)
qed

text \<open>The four fields the efficiency step writes, as functions of the three numbers it
  reads.\<close>

lemma efficiency_record_fields:
  "fst (efficiency_record env record) k =
     (case (get_float env record ''trip_distance_km'' 0, get_float env record ''trip_duration'' 0,
            get_float env record ''trip_speed_kmh'' 0) of
        (Some distance_km, Some duration_seconds, Some speed_kmh) \<Rightarrow>
          if k = ''trip_complexity''
          then Some (if distance_km > 0 \<and> duration_seconds > 0
                     then format_fixed env 2 (duration_seconds / ((distance_km / 20) * 3600))
                     else ''1.00'')
          else if k = ''efficiency_score''
          then Some (if speed_kmh > 0
                     then format_fixed env 1 (min 100 ((speed_kmh / 40) * 100)) else ''0.0'')
          else if k = ''estimated_idle_time''
          then Some (if speed_kmh > 0
                     then format_fixed env 0
                            (max 0 (duration_seconds - (distance_km / speed_kmh) * 3600))
                     else str_of_float env duration_seconds)
          else if k = ''distance_per_minute''
          then Some (if duration_seconds / 60 > 0
                     then format_fixed env 4 (distance_km / (duration_seconds / 60))
                     else ''0.0000'')
          else record k
      | other \<Rightarrow>
          if k = ''trip_complexity'' then Some ''1.00''
          else if k = ''efficiency_score'' then Some ''0.0''
          else if k = ''estimated_idle_time'' then Some ''0''
          else if k = ''distance_per_minute'' then Some ''0.0000''
          else record k)"
  by (simp add: efficiency_record_def Let_def split: option.splits)

lemma efficiency_record_reads:
  "get_float env (fst (efficiency_record env record)) ''trip_distance_km'' d
     = get_float env record ''trip_distance_km'' d"
  "get_float env (fst (efficiency_record env record)) ''trip_duration'' d
     = get_float env record ''trip_duration'' d"
  "get_float env (fst (efficiency_record env record)) ''trip_speed_kmh'' d
     = get_float env record ''trip_speed_kmh'' d"
  unfolding get_float_def [of env "fst (efficiency_record env record)"] efficiency_record_fields
  by (simp_all add: get_float_def split: option.splits)

lemma efficiency_record_idem:
  "fst (efficiency_record env (fst (efficiency_record env record)))
     = fst (efficiency_record env record)"
proof (rule ext)
  fix k
  show "fst (efficiency_record env (fst (efficiency_record env record))) k
     = fst (efficiency_record env record) k"
    by (simp add: efficiency_record_fields efficiency_record_reads split: option.splits)
qed

lemma calculate_efficiency_metrics_store:
  "fe_store (fst (calculate_efficiency_metrics env st data)) =
     (\<lambda>a. if a \<in> set data then fst (efficiency_record env (fe_store st a)) else fe_store st a)"
  unfolding calculate_efficiency_metrics_def fst_conv
  by (rule for_each_record_store) (rule efficiency_record_idem)

text \<open>
  Claim C10, as the code has it.  After \<^verbatim>\<open>_calculate_efficiency_metrics\<close>, on every record of
  the list whose distance, duration and speed fields all convert to numbers: with a
  strictly positive speed the estimated idle time is \<open>max(0, duration - (distance / speed) *
  3600)\<close>, printed without decimals; with a speed that is not positive (zero distance, or an
  absent speed field, read as \<open>0\<close>) it is the whole trip duration, printed by \<^verbatim>\<open>str\<close>.  When
  one of the three fields does not convert, the handler of the \<^verbatim>\<open>try\<close> block sets the
  estimated idle time to \<^verbatim>\<open>"0"\<close>.
\<close>

theorem estimated_idle_time_cases:
  "(\<forall>a\<in>set data. \<forall>distance_km duration_seconds speed_kmh.
       get_float env (fe_store st a) ''trip_distance_km'' 0 = Some distance_km
       \<and> get_float env (fe_store st a) ''trip_duration'' 0 = Some duration_seconds
       \<and> get_float env (fe_store st a) ''trip_speed_kmh'' 0 = Some speed_kmh
       \<longrightarrow> fe_store (fst (calculate_efficiency_metrics env st data)) a ''estimated_idle_time''
           = Some (if speed_kmh > 0
                   then format_fixed env 0
                          (max 0 (duration_seconds - (distance_km / speed_kmh) * 3600))
                   else str_of_float env duration_seconds))
   \<and> (\<forall>a\<in>set data.
         get_float env (fe_store st a) ''trip_distance_km'' 0 = None
         \<or> get_float env (fe_store st a) ''trip_duration'' 0 = None
         \<or> get_float env (fe_store st a) ''trip_speed_kmh'' 0 = None
         \<longrightarrow> fe_store (fst (calculate_efficiency_metrics env st data)) a ''estimated_idle_time''
             = Some ''0'')"
  by (auto simp: calculate_efficiency_metrics_store efficiency_record_fields
      split: option.splits)

lemma enriched_reads:
  "get_float plain_builtins moving_trip ''trip_distance_km'' 0 = Some 2"
  "get_float plain_builtins moving_trip ''trip_duration'' 0 = Some 600"
  "get_float plain_builtins moving_trip ''trip_speed_kmh'' 0 = Some 12"
  "get_float plain_builtins still_trip ''trip_distance_km'' 0 = Some 0"
  "get_float plain_builtins still_trip ''trip_duration'' 0 = Some 120"
  "get_float plain_builtins still_trip ''trip_speed_kmh'' 0 = Some 0"
  "get_float plain_builtins garbled_speed_trip ''trip_distance_km'' 0 = Some 1"
  "get_float plain_builtins garbled_speed_trip ''trip_duration'' 0 = Some 120"
  "get_float plain_builtins garbled_speed_trip ''trip_speed_kmh'' 0 = None"
  "get_float plain_builtins untimed_trip ''trip_distance_km'' 0 = Some 1"
  "get_float plain_builtins untimed_trip ''trip_duration'' 0 = None"
  by (simp_all add: get_float_def moving_trip_def still_trip_def garbled_speed_trip_def
      untimed_trip_def plain_defs)

lemma four_enriched_store:
  "fe_store four_enriched 0 = moving_trip" "fe_store four_enriched (Suc 0) = still_trip"
  "fe_store four_enriched 2 = garbled_speed_trip" "fe_store four_enriched 3 = untimed_trip"
  by (simp_all add: four_enriched_def)

lemma plain_prints:
  "format_fixed plain_builtins 0 0 = ''0''" "str_of_float plain_builtins 120 = ''120.0''"
  by (simp_all add: plain_builtins_def plain_format_def round_half_even_def plain_str_float_def
      plain_str_int_def plain_str_nat_def nat_digits.simps zero_pad_def Let_def)

text \<open>Claim C10 as stated fails where a field does not convert.  The third record has the
  speed field \<^verbatim>\<open>abc\<close> and the duration \<^verbatim>\<open>120\<close>: its estimated idle time is \<^verbatim>\<open>"0"\<close>, not the trip
  duration.  The fourth has an unparsable duration, for which the speed step derives the
  speed \<^verbatim>\<open>"0.00"\<close>: the efficiency step then again sets \<^verbatim>\<open>"0"\<close>.\<close>

theorem unparsable_field_idle_time_zero:
  "fe_store four_enriched 2 ''trip_speed_kmh'' = Some ''abc''
   \<and> to_float plain_builtins ''abc'' = None
   \<and> fe_store four_enriched 2 ''trip_duration'' = Some ''120''
   \<and> fe_store (fst (calculate_efficiency_metrics plain_builtins four_enriched [0, 1, 2, 3])) 2
        ''estimated_idle_time'' = Some ''0''
   \<and> fe_store (fst (calculate_trip_speed plain_builtins four_enriched [3])) 3 ''trip_speed_kmh''
        = Some ''0.00''
   \<and> fe_store (fst (calculate_efficiency_metrics plain_builtins
                   (fst (calculate_trip_speed plain_builtins four_enriched [3])) [3])) 3
        ''estimated_idle_time'' = Some ''0''"
proof -
  have 1: "fe_store four_enriched 2 ''trip_speed_kmh'' = Some ''abc''"
    "fe_store four_enriched 2 ''trip_duration'' = Some ''120''"
    by (simp_all add: four_enriched_store garbled_speed_trip_def)
  have 2: "to_float plain_builtins ''abc'' = None" by (simp add: plain_defs)
  have 3: "fe_store (fst (calculate_efficiency_metrics plain_builtins four_enriched [0, 1, 2, 3])) 2
        ''estimated_idle_time'' = Some ''0''"
    by (simp add: calculate_efficiency_metrics_store efficiency_record_fields four_enriched_store
        enriched_reads)
  have sp: "trip_speed_record plain_builtins untimed_trip
      = (untimed_trip(''trip_speed_kmh'' \<mapsto> ''0.00''), id)"
    by (simp add: trip_speed_record_def enriched_reads)
  have st: "fe_store (fst (calculate_trip_speed plain_builtins four_enriched [3])) 3
      = untimed_trip(''trip_speed_kmh'' \<mapsto> ''0.00'')"
    by (simp add: calculate_trip_speed_def four_enriched_store sp)
  have 4: "fe_store (fst (calculate_trip_speed plain_builtins four_enriched [3])) 3 ''trip_speed_kmh''
        = Some ''0.00''"
    by (simp add: st)
  have "get_float plain_builtins (untimed_trip(''trip_speed_kmh'' \<mapsto> ''0.00'')) ''trip_duration'' 0
      = None"
    by (simp add: get_float_other enriched_reads)
  then have 5: "fe_store (fst (calculate_efficiency_metrics plain_builtins
                   (fst (calculate_trip_speed plain_builtins four_enriched [3])) [3])) 3
        ''estimated_idle_time'' = Some ''0''"
    by (simp add: calculate_efficiency_metrics_store efficiency_record_fields st
        split: option.splits)
  from 1 2 3 4 5 show ?thesis by blast
qed

text \<open>The three cases on the example records.\<close>

theorem estimated_idle_time_cases_witness:
  "fe_store (fst (calculate_efficiency_metrics plain_builtins four_enriched [0, 1, 2, 3])) 0
        ''estimated_idle_time'' = Some ''0''
   \<and> fe_store (fst (calculate_efficiency_metrics plain_builtins four_enriched [0, 1, 2, 3])) 1
        ''estimated_idle_time'' = Some ''120.0''
   \<and> fe_store (fst (calculate_efficiency_metrics plain_builtins four_enriched [0, 1, 2, 3])) 3
        ''estimated_idle_time'' = Some ''0''"
proof -
  note T = estimated_idle_time_cases [of "[0, 1, 2, 3]" plain_builtins four_enriched]
  have m: "(0::nat) \<in> set [0, 1, 2, 3]" "Suc 0 \<in> set [0, 1, 2, 3]" "(3::nat) \<in> set [0, 1, 2, 3]"
    by simp_all
  have a: "fe_store (fst (calculate_efficiency_metrics plain_builtins four_enriched [0, 1, 2, 3])) 0
        ''estimated_idle_time''
      = Some (if (12::real) > 0 then format_fixed plain_builtins 0 (max 0 (600 - (2 / 12) * 3600))
              else str_of_float plain_builtins 600)"
    using T [THEN conjunct1, rule_format, OF m(1), of 2 600 12]
    by (simp only: four_enriched_store enriched_reads simp_thms)
  have b: "fe_store (fst (calculate_efficiency_metrics plain_builtins four_enriched [0, 1, 2, 3]))
        (Suc 0) ''estimated_idle_time''
      = Some (if (0::real) > 0 then format_fixed plain_builtins 0 (max 0 (120 - (0 / 0) * 3600))
              else str_of_float plain_builtins 120)"
    using T [THEN conjunct1, rule_format, OF m(2), of 0 120 0]
    by (simp only: four_enriched_store enriched_reads simp_thms)
  have c: "fe_store (fst (calculate_efficiency_metrics plain_builtins four_enriched [0, 1, 2, 3])) 3
        ''estimated_idle_time'' = Some ''0''"
    using T [THEN conjunct2, rule_format, OF m(3)]
    by (simp only: four_enriched_store enriched_reads simp_thms)
  from a b c show ?thesis by (simp add: plain_prints)
qed

subsection \<open>Outlier detection on large sets\<close>

lemma mark_outliers_loop_frame:
  "a \<notin> snd ` set ivs \<Longrightarrow> store (mark_outliers_loop st ivs idx) a = store st a"
  by (induction st ivs idx rule: mark_outliers_loop.induct) (auto simp: set_field_def)

lemma mark_outliers_loop_flag:
  "distinct (map snd ivs) \<Longrightarrow> (i, a) \<in> set ivs \<Longrightarrow>
   store (mark_outliers_loop st ivs idx) a ''outlier_flag''
     = Some (if i \<in> idx then ''DURATION_OUTLIER'' else ''NORMAL'')"
proof (induction st ivs idx rule: mark_outliers_loop.induct)
  case (1 st idx)
  then show ?case by simp
next
  case (2 st j b rest idx)
  show ?case
  proof (cases "(i, a) = (j, b)")
    case True
    then have "a \<notin> snd ` set rest" using "2.prems"(1) by auto
    then show ?thesis
      using True by (simp add: mark_outliers_loop_frame set_field_def)
  next
    case False
    then have "(i, a) \<in> set rest" using "2.prems"(2) by auto
    then show ?thesis using 2 by simp
  qed
qed

lemma map_constant: "(\<And>x. x \<in> set xs \<Longrightarrow> f x = c) \<Longrightarrow> map f xs = replicate (length xs) c"
  by (induction xs) simp_all

lemma spec_percentile_replicate:
  assumes n: "0 < n" and p: "0 \<le> p" "p \<le> 100"
  shows "spec_percentile (replicate n c) p = c"
proof -
  have s: "set (replicate n c) = {c}" using n by simp
  define pos where "pos = (real_of_int p / 100) * real (n - 1)"
  have "real_of_int p / 100 \<le> 1" using p by simp
  then have "(real_of_int p / 100) * real (n - 1) \<le> 1 * real (n - 1)"
    by (intro mult_right_mono) simp_all
  then have le: "pos \<le> real (n - 1)" by (simp add: pos_def)
  have ge: "0 \<le> pos" using p by (simp add: pos_def)
  have "\<lfloor>pos\<rfloor> \<le> \<lceil>pos\<rceil>" by (rule floor_le_ceiling)
  moreover have "\<lceil>pos\<rceil> \<le> int (n - 1)" using le by (simp add: ceiling_le_iff)
  moreover have "0 \<le> \<lfloor>pos\<rfloor>" using ge by simp
  ultimately have i: "nat \<lfloor>pos\<rfloor> < n" "nat \<lceil>pos\<rceil> < n" using n by linarith+
  have v: "sort (replicate n c) ! nat \<lfloor>pos\<rfloor> * (1 - (pos - real_of_int \<lfloor>pos\<rfloor>))
      + sort (replicate n c) ! nat \<lceil>pos\<rceil> * (pos - real_of_int \<lfloor>pos\<rfloor>) = c"
    using i by (simp add: sorted_sort_id algebra_simps)
  show ?thesis
  proof (cases "p = 0 \<or> p = 100")
    case True
    then show ?thesis by (auto simp: spec_percentile_def s)
  next
    case False
    then have "spec_percentile (replicate n c) p =
        sort (replicate n c) ! nat \<lfloor>pos\<rfloor> * (1 - (pos - real_of_int \<lfloor>pos\<rfloor>))
        + sort (replicate n c) ! nat \<lceil>pos\<rceil> * (pos - real_of_int \<lfloor>pos\<rfloor>)"
      by (simp add: spec_percentile_def Let_def pos_def del: sort_key_simps)
    with v show ?thesis by simp
  qed
qed

lemma outlier_index_set_large:
  assumes "length durations > 100000"
    and "sample durations 50000 = replicate 50000 c"
  shows "outlier_index_set sample durations
     = Inr {i. i < length durations \<and> (durations ! i < c \<or> durations ! i > c)}"
proof -
  have m: "min 50000 (length durations) = 50000" using assms(1) by simp
  have l: "4 \<le> length (replicate 50000 c)" by simp
  have q: "spec_percentile (replicate 50000 c) 25 = c" "spec_percentile (replicate 50000 c) 75 = c"
    by (simp_all add: spec_percentile_replicate)
  have iqr: "detect_outliers_iqr (replicate 50000 c) 2 \<noteq> Inl e" for e
    using detect_outliers_iqr_long [OF l, of 2] by (simp add: Let_def)
  obtain idx where d: "detect_outliers_iqr (replicate 50000 c) 2 =
      Inr (idx, [''q1'' \<mapsto> c, ''q3'' \<mapsto> c, ''iqr'' \<mapsto> 0, ''lower_bound'' \<mapsto> c,
                 ''upper_bound'' \<mapsto> c, ''outlier_count'' \<mapsto> real (length idx)])"
    using detect_outliers_iqr_long [OF l, of 2] by (simp add: Let_def q)
  show ?thesis
    using assms(1)
    by (simp add: outlier_index_set_def Let_def m assms(2) d dict_get_def outlier_loop_indices)
qed

lemma many_trips_durations:
  "durations_of plain_builtins (store many_trips) [0..<100001]
     = map (\<lambda>a. if a < 50000 then 100 else 200) [0..<100001]"
  unfolding durations_of_def
  by (rule map_cong [OF refl]) (simp add: many_trips_def get_float_def plain_defs)

lemma many_trips_first_draw:
  "sample_first (map (\<lambda>a. if a < 50000 then 100 else 200 :: real) [0..<100001]) 50000
     = replicate 50000 100"
proof -
  have "take 50000 [0..<100001] = [0..<50000]"
    by (simp only: take_upt) simp
  then have "sample_first (map (\<lambda>a. if a < 50000 then 100 else 200 :: real) [0..<100001]) 50000
      = map (\<lambda>a. if a < 50000 then 100 else 200) [0..<50000]"
    by (simp only: sample_first_def take_map)
  also have "\<dots> = replicate (length [0..<50000]) 100"
    by (rule map_constant) simp
  finally show ?thesis by simp
qed

lemma many_trips_last_draw:
  "sample_last (map (\<lambda>a. if a < 50000 then 100 else 200 :: real) [0..<100001]) 50000
     = replicate 50000 200"
proof -
  have "drop 50001 [0..<100001] = [50001..<100001]"
    by (simp only: drop_upt) (simp del: upt_rec_numeral)
  then have d: "drop 50001 (map (\<lambda>a. if a < 50000 then 100 else 200 :: real) [0..<100001])
      = map (\<lambda>a. if a < 50000 then 100 else 200) [50001..<100001]"
    by (simp only: drop_map)
  have "map (\<lambda>a. if a < 50000 then 100 else 200 :: real) [50001..<100001]
      = replicate (length [50001..<100001]) 200"
    by (rule map_constant) (simp del: upt_rec_numeral)
  then have r: "map (\<lambda>a. if a < 50000 then 100 else 200 :: real) [50001..<100001]
      = replicate 50000 200"
    by (simp del: upt_rec_numeral)
  have "sample_last (map (\<lambda>a. if a < 50000 then 100 else 200 :: real) [0..<100001]) 50000
      = rev (drop (length (map (\<lambda>a. if a < 50000 then 100 else 200 :: real) [0..<100001]) - 50000)
               (map (\<lambda>a. if a < 50000 then 100 else 200 :: real) [0..<100001]))"
    by (simp only: sample_last_def take_rev)
  also have "length (map (\<lambda>a. if a < 50000 then 100 else 200 :: real) [0..<100001]) - 50000 = 50001"
    by simp
  finally show ?thesis by (simp only: d r rev_replicate)
qed

lemma many_trips_flag:
  assumes "sample (map (\<lambda>a. if a < 50000 then 100 else 200 :: real) [0..<100001]) 50000
      = replicate 50000 c"
  shows "outlier_flag_after (detect_outliers plain_builtins sample many_trips [0..<100001]) 0
     = Some (if 100 < c \<or> 100 > c then ''DURATION_OUTLIER'' else ''NORMAL'')"
proof -
  let ?d = "map (\<lambda>a. if a < 50000 then 100 else 200 :: real) [0..<100001]"
  have len: "length ?d > 100000" by simp
  have d0: "?d ! 0 = 100" by (simp del: upt_rec_numeral)
  note idx = outlier_index_set_large [of ?d sample c, OF len assms]
  have e: "(0, 0) \<in> set (enumerate_list [0..<100001])"
    unfolding enumerate_list_def in_set_zip
    by (rule exI [of _ 0]) (simp del: upt_rec_numeral)
  have dist: "distinct (map snd (enumerate_list [0..<100001]))"
    unfolding enumerate_list_def by (simp del: upt_rec_numeral)
  have "outlier_flag_after (detect_outliers plain_builtins sample many_trips [0..<100001]) 0
      = store (mark_outliers_loop many_trips (enumerate_list [0..<100001])
                 {i. i < length ?d \<and> (?d ! i < c \<or> ?d ! i > c)}) 0 ''outlier_flag''"
    by (simp only: outlier_flag_after_def detect_outliers_def many_trips_durations idx
        sum.case prod.case)
  also have "\<dots> = Some (if 0 \<in> {i. i < length ?d \<and> (?d ! i < c \<or> ?d ! i > c)}
                        then ''DURATION_OUTLIER'' else ''NORMAL'')"
    by (rule mark_outliers_loop_flag [OF dist e])
  also have "\<dots> = Some (if 100 < c \<or> 100 > c then ''DURATION_OUTLIER'' else ''NORMAL'')"
    using d0 by (simp del: upt_rec_numeral)
  finally show ?thesis .
qed

text \<open>
  Claim C9, as the code has it.  \<^verbatim>\<open>_detect_outliers\<close> takes no seed and no random source: above
  100,000 records it calls \<^verbatim>\<open>random.sample\<close> on the process-wide generator.  Its result is a
  function of the records and of the sample drawn: up to 100,000 records no sample is drawn
  and any two runs agree; above, two runs agree when they draw the same sample.
\<close>

theorem detect_outliers_deterministic_up_to_the_draw:
  "(length data \<le> 100000 \<longrightarrow>
      detect_outliers env sample1 st data = detect_outliers env sample2 st data)
   \<and> (sample1 (durations_of env (store st) data) (min 50000 (length data))
         = sample2 (durations_of env (store st) data) (min 50000 (length data)) \<longrightarrow>
       detect_outliers env sample1 st data = detect_outliers env sample2 st data)"
  by (simp add: detect_outliers_def outlier_index_set_def durations_of_def Let_def)

text \<open>Claim C9 as stated fails above the threshold: on 100,001 records, two admissible
  draws (the first 50,000 durations, the last 50,000 durations) give different bounds, and
  the first record is flagged under one and not under the other.\<close>

theorem outlier_flags_depend_on_the_draw:
  "outlier_flag_after (detect_outliers plain_builtins sample_first many_trips [0..<100001]) 0
     = Some ''NORMAL''
   \<and> outlier_flag_after (detect_outliers plain_builtins sample_last many_trips [0..<100001]) 0
     = Some ''DURATION_OUTLIER''"
  using many_trips_flag [of sample_first 100, OF many_trips_first_draw]
    many_trips_flag [of sample_last 200, OF many_trips_last_draw]
  by simp

text \<open>On a single record no sample is drawn, and both draws coincide as well.\<close>

theorem detect_outliers_deterministic_up_to_the_draw_witness:
  "length [0 :: nat] \<le> 100000
   \<and> sample_first (durations_of plain_builtins (store five_trips) [0]) (min 50000 (length [0 :: nat]))
       = sample_last (durations_of plain_builtins (store five_trips) [0]) (min 50000 (length [0 :: nat]))
   \<and> detect_outliers plain_builtins sample_first five_trips [0]
       = detect_outliers plain_builtins sample_last five_trips [0]"
proof -
  have l: "length [0 :: nat] \<le> 100000" by simp
  have s: "sample_first (durations_of plain_builtins (store five_trips) [0])
              (min 50000 (length [0 :: nat]))
       = sample_last (durations_of plain_builtins (store five_trips) [0])
              (min 50000 (length [0 :: nat]))"
    by (simp add: sample_first_def sample_last_def durations_of_def)
  from detect_outliers_deterministic_up_to_the_draw
    [of "[0]" plain_builtins sample_first five_trips sample_last] l s
  show ?thesis by blast
qed

end
